theory Spec2Isabelle
  imports Main "HOL-Library.Sublist"
begin

section \<open>Certificate provisioning of the elasticsearch operator (pkg/k8sutil/certs.go)\<close>

text \<open>
  The Go file drives the operating system: it writes descriptor files, removes directory
  entries, starts external programs (cfssl, cfssljson, openssl, keytool), reads the
  artifacts back and hands them to the Kubernetes API. The functions of the file are
  embedded as state-passing functions over a \<open>world\<close>; everything that is decided outside
  the repository (which system call fails, what an external program does, what
  \<open>json.Marshal\<close> prints, the order in which Go ranges over a map) is read from an
  environment \<open>env\<close> that every theorem quantifies over. Calls to \<open>logrus\<close> have no
  effect on results and are left out.
\<close>

subsection \<open>The structs of the file (lines 41-72)\<close>

type_synonym bytes = string
type_synonym path = string

record key =
  Algo :: string
  Size :: int

text \<open>The fields \<open>O\<close>, \<open>OU\<close>, \<open>L\<close>, \<open>C\<close> and \<open>ST\<close> of \<open>names\<close> carry the struct's name as a
  prefix.\<close>

record names =
  names_O :: string
  names_OU :: string
  names_L :: string
  names_C :: string
  names_ST :: string

record csr =
  CN :: string
  Hosts :: "string list"
  Key :: key
  Names :: "names list"

record configDefault =
  Usages :: "string list"
  Expiry :: string

record configSigning =
  Default :: configDefault

record caconfig =
  Signing :: configSigning

subsection \<open>Errors, files, processes\<close>

text \<open>
  Go's \<open>error\<close> values. A function returning \<open>error\<close> is modelled with
  \<open>error option\<close> (\<open>None\<close> is \<open>nil\<close>). A panic is a separate outcome (\<open>Panic\<close>).
\<close>

datatype error =
    ENOENT path
  | ENOTDIR path
  | EISDIR path
  | EPERM path
  | ErrInvalid
  | ErrMarshal
  | ErrPipe
  | ErrStdoutSet
  | ErrAlreadyStarted
  | ErrStart string
  | ExitError nat
  | ErrAlreadyExists string
  | ErrApi

datatype 'a go = Panic string | Return 'a

datatype node = File bytes | Dir

datatype fsop = OpOpen | OpReaddir | OpRemove | OpCreate | OpWrite | OpRead

text \<open>
  The standard input of a process: \<open>/dev/null\<close> (Go's default for a nil \<open>Stdin\<close>), the
  read end of a pipe holding what the upstream process wrote, or a pipe that was closed
  because the upstream process never started.
\<close>

datatype stdin = DevNull | ClosedPipe | Piped bytes

text \<open>What running an external program does: it fails to start, or it exits with a
  code, its standard output and the file system as it left it.\<close>

datatype proc_outcome = StartFail error | Exited nat bytes "(path \<times> node) list"

text \<open>The calls the code makes to the operating system, in the order it makes them:
  \<open>os.Open\<close>, \<open>os.RemoveAll\<close> and \<open>os.Create\<close> (whether or not the call succeeds), a
  \<open>Write\<close> that succeeded, and \<open>Start\<close> or \<open>Output\<close> reaching the point where the program
  is started (whether or not it could be).\<close>

datatype event =
    EvOpen path
  | EvRemoveAll path
  | EvCreate path
  | EvWrite path bytes
  | EvExec string "string list"

record secret =
  Name :: string
  Data :: "string \<Rightarrow> bytes option"

record world =
  fs :: "(path \<times> node) list"
  trace :: "event list"
  secrets :: "((string \<times> string) \<times> secret) list"

text \<open>
  The environment. \<open>fault\<close> lets the operating system refuse any file operation;
  \<open>spawn\<close> is the behaviour of the external programs; \<open>map_seed\<close> picks the order of
  a \<open>range\<close> over a map; \<open>secretName\<close> is the package constant of that name, declared
  in another file of the package.
\<close>

record env =
  fault :: "fsop \<Rightarrow> path \<Rightarrow> error option"
  json_Marshal_caconfig :: "caconfig \<Rightarrow> error + bytes"
  json_Marshal_csr :: "csr \<Rightarrow> error + bytes"
  map_seed :: "nat list"
  pipe_fault :: "error option"
  spawn :: "string \<Rightarrow> string list \<Rightarrow> stdin \<Rightarrow> (path \<times> node) list \<Rightarrow> proc_outcome"
  api_fault :: "string \<Rightarrow> string \<Rightarrow> error option"
  secretName :: string

text \<open>\<open>exec.Cmd\<close>: the program and its arguments (without \<open>argv[0]\<close>), its standard
  input, and the two facts \<open>StdoutPipe\<close> and \<open>Output\<close> test.\<close>

record cmd =
  Path :: string
  Args :: "string list"
  Stdin :: stdin
  StdoutSet :: bool
  Started :: bool

subsection \<open>Library functions the file calls\<close>

text \<open>\<open>fmt.Sprintf\<close> for the one verb the file uses, \<open>%s\<close>, with string arguments;
  the file passes as many arguments as the format has verbs.\<close>

fun Sprintf :: "string \<Rightarrow> string list \<Rightarrow> string" where
  "Sprintf [] as = []"
| "Sprintf [c] as = [c]"
| "Sprintf (c # d # rest) as =
     (if c = CHR ''%'' \<and> d = CHR ''s''
      then (case as of
              [] \<Rightarrow> ''%!s(MISSING)'' @ Sprintf rest []
            | a # as' \<Rightarrow> a @ Sprintf rest as')
      else c # Sprintf (d # rest) as)"

text \<open>\<open>json.Marshal\<close> returns nil bytes together with an error.\<close>

definition bytes_or_nil :: "error + bytes \<Rightarrow> bytes" where
  "bytes_or_nil r = (case r of Inl e \<Rightarrow> [] | Inr b \<Rightarrow> b)"

text \<open>A \<open>range\<close> over a Go map visits every entry once, in an order the runtime picks:
  the seed selects, step by step, which of the remaining entries comes next.\<close>

fun map_range :: "nat list \<Rightarrow> 'a list \<Rightarrow> 'a list" where
  "map_range seed [] = []"
| "map_range [] (x # xs) = x # xs"
| "map_range (i # seed) (x # xs) =
     (let j = i mod length (x # xs)
      in (x # xs) ! j # map_range seed (take j (x # xs) @ drop (Suc j) (x # xs)))"

definition emit :: "event \<Rightarrow> world \<Rightarrow> world" where
  "emit e w = w\<lparr>trace := trace w @ [e]\<rparr>"

definition events_since :: "world \<Rightarrow> world \<Rightarrow> event list" where
  "events_since w w' = drop (length (trace w)) (trace w')"

text \<open>The file system is a list of paths with what they hold, in the order a directory
  read returns them. Paths are compared as written; a directory's entries are the paths
  one component below it.\<close>

definition is_child :: "path \<Rightarrow> path \<Rightarrow> bool" where
  "is_child d q =
     (take (length d + 1) q = d @ ''/'' \<and> drop (length d + 1) q \<noteq> []
      \<and> CHR ''/'' \<notin> set (drop (length d + 1) q))"

definition entries :: "path \<Rightarrow> (path \<times> node) list \<Rightarrow> string list" where
  "entries d files = map (drop (length d + 1)) (filter (is_child d) (map fst files))"

definition within :: "path \<Rightarrow> path \<Rightarrow> bool" where
  "within p q = (q = p \<or> take (length p + 1) q = p @ ''/'')"

definition dirname :: "path \<Rightarrow> path" where
  "dirname p = rev (drop 1 (dropWhile (\<lambda>c. c \<noteq> CHR ''/'') (rev p)))"

fun fs_put :: "path \<Rightarrow> node \<Rightarrow> (path \<times> node) list \<Rightarrow> (path \<times> node) list" where
  "fs_put p n [] = [(p, n)]"
| "fs_put p n ((q, m) # files) = (if q = p then (p, n) # files else (q, m) # fs_put p n files)"

text \<open>\<open>filepath.Join\<close> of a directory and an entry name read from it.\<close>

definition filepath_Join :: "path \<Rightarrow> string \<Rightarrow> path" where
  "filepath_Join d n = d @ ''/'' @ n"

text \<open>\<open>os.Open\<close>: the handle is the path.\<close>

definition os_Open :: "env \<Rightarrow> path \<Rightarrow> world \<Rightarrow> (error + path) \<times> world" where
  "os_Open E p w =
     ((case fault E OpOpen p of
         Some e \<Rightarrow> Inl e
       | None \<Rightarrow> (case map_of (fs w) p of None \<Rightarrow> Inl (ENOENT p) | Some n \<Rightarrow> Inr p)),
      emit (EvOpen p) w)"

definition Readdirnames :: "env \<Rightarrow> path \<Rightarrow> world \<Rightarrow> error + string list" where
  "Readdirnames E d w =
     (case fault E OpReaddir d of
        Some e \<Rightarrow> Inl e
      | None \<Rightarrow>
          (case map_of (fs w) d of
             Some Dir \<Rightarrow> Inr (entries d (fs w))
           | Some (File b) \<Rightarrow> Inl (ENOTDIR d)
           | None \<Rightarrow> Inl (ENOENT d)))"

text \<open>\<open>os.RemoveAll\<close> removes the path and everything below it; removing a path that
  does not exist is no error.\<close>

definition os_RemoveAll :: "env \<Rightarrow> path \<Rightarrow> world \<Rightarrow> error option \<times> world" where
  "os_RemoveAll E p w =
     (case fault E OpRemove p of
        Some e \<Rightarrow> (Some e, emit (EvRemoveAll p) w)
      | None \<Rightarrow>
          (None, emit (EvRemoveAll p) (w\<lparr>fs := filter (\<lambda>(q, n). \<not> within p q) (fs w)\<rparr>)))"

text \<open>\<open>os.Create\<close> returns a file and an error; the file is nil when it fails.\<close>

definition os_Create :: "env \<Rightarrow> path \<Rightarrow> world \<Rightarrow> (path option \<times> error option) \<times> world" where
  "os_Create E p w =
     (case fault E OpCreate p of
        Some e \<Rightarrow> ((None, Some e), emit (EvCreate p) w)
      | None \<Rightarrow>
          if map_of (fs w) p = Some Dir then ((None, Some (EISDIR p)), emit (EvCreate p) w)
          else if map_of (fs w) (dirname p) \<noteq> Some Dir
          then ((None, Some (ENOENT p)), emit (EvCreate p) w)
          else ((Some p, None), emit (EvCreate p) (w\<lparr>fs := fs_put p (File []) (fs w)\<rparr>)))"

text \<open>\<open>Write\<close> of an \<open>os.File\<close>: on a nil file it returns \<open>os.ErrInvalid\<close>.\<close>

definition file_Write :: "env \<Rightarrow> path option \<Rightarrow> bytes \<Rightarrow> world \<Rightarrow> error option \<times> world" where
  "file_Write E f b w =
     (case f of
        None \<Rightarrow> (Some ErrInvalid, w)
      | Some p \<Rightarrow>
          (case fault E OpWrite p of
             Some e \<Rightarrow> (Some e, w)
           | None \<Rightarrow>
               (None,
                emit (EvWrite p b)
                  (w\<lparr>fs := fs_put p
                     (File ((case map_of (fs w) p of Some (File old) \<Rightarrow> old | _ \<Rightarrow> []) @ b))
                     (fs w)\<rparr>))))"

text \<open>\<open>ioutil.ReadFile\<close> returns the content and an error; the content is nil when the
  file cannot be opened.\<close>

definition ioutil_ReadFile :: "env \<Rightarrow> path \<Rightarrow> world \<Rightarrow> bytes \<times> error option" where
  "ioutil_ReadFile E p w =
     (case fault E OpRead p of
        Some e \<Rightarrow> ([], Some e)
      | None \<Rightarrow>
          (case map_of (fs w) p of
             None \<Rightarrow> ([], Some (ENOENT p))
           | Some Dir \<Rightarrow> ([], Some (EISDIR p))
           | Some (File b) \<Rightarrow> (b, None)))"

text \<open>\<open>exec.Command\<close>, \<open>StdoutPipe\<close>, \<open>Start\<close> and \<open>Output\<close>. A pipeline is run one
  process after the other: a started process runs to its end, and what it wrote is what
  the next one reads.\<close>

definition exec_Command :: "string \<Rightarrow> string list \<Rightarrow> cmd" where
  "exec_Command name arg =
     \<lparr>Path = name, Args = arg, Stdin = DevNull, StdoutSet = False, Started = False\<rparr>"

definition cmd_StdoutPipe :: "env \<Rightarrow> cmd \<Rightarrow> error + cmd" where
  "cmd_StdoutPipe E c =
     (if StdoutSet c then Inl ErrStdoutSet
      else if Started c then Inl ErrAlreadyStarted
      else (case pipe_fault E of Some e \<Rightarrow> Inl e | None \<Rightarrow> Inr (c\<lparr>StdoutSet := True\<rparr>)))"

text \<open>\<open>Start\<close> returns the error and, for the model, what the read end of the command's
  stdout pipe will deliver.\<close>

definition cmd_Start :: "env \<Rightarrow> cmd \<Rightarrow> world \<Rightarrow> (error option \<times> stdin) \<times> world" where
  "cmd_Start E c w =
     (if Started c then ((Some ErrAlreadyStarted, ClosedPipe), w)
      else (case spawn E (Path c) (Args c) (Stdin c) (fs w) of
              StartFail e \<Rightarrow> ((Some e, ClosedPipe), emit (EvExec (Path c) (Args c)) w)
            | Exited n out files \<Rightarrow>
                ((None, Piped out), emit (EvExec (Path c) (Args c)) (w\<lparr>fs := files\<rparr>))))"

definition cmd_Output :: "env \<Rightarrow> cmd \<Rightarrow> world \<Rightarrow> (bytes \<times> error option) \<times> world" where
  "cmd_Output E c w =
     (if StdoutSet c then (([], Some ErrStdoutSet), w)
      else if Started c then (([], Some ErrAlreadyStarted), w)
      else (case spawn E (Path c) (Args c) (Stdin c) (fs w) of
              StartFail e \<Rightarrow> (([], Some e), emit (EvExec (Path c) (Args c)) w)
            | Exited n out files \<Rightarrow>
                ((out, if n = 0 then None else Some (ExitError n)),
                 emit (EvExec (Path c) (Args c)) (w\<lparr>fs := files\<rparr>))))"

text \<open>\<open>Secrets(namespace).Create\<close> of the Kubernetes client.\<close>

definition kube_Create :: "env \<Rightarrow> string \<Rightarrow> secret \<Rightarrow> world \<Rightarrow> error option \<times> world" where
  "kube_Create E namespace s w =
     (case api_fault E namespace (Name s) of
        Some e \<Rightarrow> (Some e, w)
      | None \<Rightarrow>
          if map_of (secrets w) (namespace, Name s) \<noteq> None
          then (Some (ErrAlreadyExists (Name s)), w)
          else (None, w\<lparr>secrets := secrets w @ [((namespace, Name s), s)]\<rparr>))"

subsection \<open>generateConfig (lines 75-170)\<close>

definition caConfig :: caconfig where
  "caConfig =
     \<lparr>Signing = \<lparr>Default =
        \<lparr>Usages = [''signing'', ''key encipherment'', ''server auth'', ''client auth''],
         Expiry = ''8760h''\<rparr>\<rparr>\<rparr>"

definition caCSR :: "string \<Rightarrow> string \<Rightarrow> csr" where
  "caCSR namespace clusterName =
     \<lparr>CN = [],
      Hosts =
        [''localhost'',
         Sprintf ''elasticsearch-%s'' [clusterName],
         Sprintf ''%s.%s'' [Sprintf ''elasticsearch-%s'' [clusterName], namespace],
         Sprintf ''%s.%s.svc.cluster.local''
           [Sprintf ''elasticsearch-%s'' [clusterName], namespace]],
      Key = \<lparr>Algo = ''rsa'', Size = 2048\<rparr>,
      Names =
        [\<lparr>names_O = ''elasticsearch-operator'', names_OU = ''k8s'', names_L = ''Pittsburgh'',
          names_C = ''US'', names_ST = ''Pennsylvania''\<rparr>]\<rparr>"

text \<open>The map literal the loop of lines 132-137 ranges over, and the \<open>req\<close> it builds
  for the entry with key \<open>k\<close>.\<close>

definition leafFiles :: "(string \<times> string) list" where
  "leafFiles =
     [(''node'', ''req-node-csr.json''),
      (''sgadmin'', ''req-sgadmin-csr.json''),
      (''kibana'', ''req-kibana-csr.json''),
      (''cerebro'', ''req-cerebro-csr.json'')]"

definition leafCSR :: "string \<Rightarrow> string \<Rightarrow> string \<Rightarrow> csr" where
  "leafCSR k namespace clusterName =
     \<lparr>CN = k,
      Hosts =
        [''localhost'',
         Sprintf ''%s-%s'' [k, clusterName],
         Sprintf ''%s.%s'' [Sprintf ''%s-%s'' [k, clusterName], namespace],
         Sprintf ''%s.%s.svc.cluster.local'' [Sprintf ''%s-%s'' [k, clusterName], namespace]],
      Key = \<lparr>Algo = ''rsa'', Size = 2048\<rparr>,
      Names =
        [\<lparr>names_O = ''autogenerated'', names_OU = ''elasticsearch cluster'',
          names_L = ''operator'', names_C = [], names_ST = []\<rparr>]\<rparr>"

text \<open>Lines 138-167, for the entries in the order the range visits them. The error of
  \<open>os.Create\<close> is overwritten by that of \<open>Write\<close> before it is tested.\<close>

fun generateConfig_loop ::
  "env \<Rightarrow> string \<Rightarrow> string \<Rightarrow> string \<Rightarrow> (string \<times> string) list \<Rightarrow> world
   \<Rightarrow> error option \<times> world" where
  "generateConfig_loop E configDir namespace clusterName [] w = (None, w)"
| "generateConfig_loop E configDir namespace clusterName ((k, v) # rest) w =
     (let req = leafCSR k namespace clusterName;
          configJSON = bytes_or_nil (json_Marshal_csr E req)
      in case os_Create E (Sprintf ''%s/%s'' [configDir, v]) w of
           ((f, err), w1) \<Rightarrow>
             (case file_Write E f configJSON w1 of
                (Some e, w2) \<Rightarrow> (Some e, w2)
              | (None, w2) \<Rightarrow> generateConfig_loop E configDir namespace clusterName rest w2))"

definition generateConfig ::
  "env \<Rightarrow> string \<Rightarrow> string \<Rightarrow> string \<Rightarrow> string \<Rightarrow> world \<Rightarrow> error option \<times> world" where
  "generateConfig E configDir certsDir namespace clusterName w =
     (case json_Marshal_caconfig E caConfig of
        Inl e \<Rightarrow> (Some e, w)
      | Inr caConfigJSON \<Rightarrow>
          (case os_Create E (Sprintf ''%s/ca-config.json'' [configDir]) w of
             ((f, err), w1) \<Rightarrow>
               (case file_Write E f caConfigJSON w1 of
                  (Some e, w2) \<Rightarrow> (Some e, w2)
                | (None, w2) \<Rightarrow>
                    (let reqCACSRJSON =
                           bytes_or_nil (json_Marshal_csr E (caCSR namespace clusterName))
                     in case os_Create E (Sprintf ''%s/ca-csr.json'' [configDir]) w2 of
                          ((f, err), w3) \<Rightarrow>
                            (case file_Write E f reqCACSRJSON w3 of
                               (Some e, w4) \<Rightarrow> (Some e, w4)
                             | (None, w4) \<Rightarrow>
                                 generateConfig_loop E configDir namespace clusterName
                                   (map_range (map_seed E) leafFiles) w4)))))"

subsection \<open>cleanUp (lines 328-345)\<close>

fun cleanUp_loop :: "env \<Rightarrow> string \<Rightarrow> string list \<Rightarrow> world \<Rightarrow> error option \<times> world" where
  "cleanUp_loop E dir [] w = (None, w)"
| "cleanUp_loop E dir (name # rest) w =
     (case os_RemoveAll E (filepath_Join dir name) w of
        (Some e, w') \<Rightarrow> (Some e, w')
      | (None, w') \<Rightarrow> cleanUp_loop E dir rest w')"

definition cleanUp :: "env \<Rightarrow> string \<Rightarrow> world \<Rightarrow> error option \<times> world" where
  "cleanUp E dir w =
     (case os_Open E dir w of
        (Inl e, w1) \<Rightarrow> (Some e, w1)
      | (Inr d, w1) \<Rightarrow>
          (case Readdirnames E d w1 of
             Inl e \<Rightarrow> (Some e, w1)
           | Inr names \<Rightarrow> cleanUp_loop E dir names w1))"

subsection \<open>pipeCommands (lines 348-362)\<close>

text \<open>The loop over \<open>commands[:len(commands)-1]\<close>, entered with the command at index
  \<open>i\<close> and the commands after it; it ends at the last command, which it hands back with
  its standard input wired. The error of \<open>Start\<close> is dropped.\<close>

fun pipe_loop :: "env \<Rightarrow> cmd \<Rightarrow> cmd list \<Rightarrow> world \<Rightarrow> (error + cmd) \<times> world" where
  "pipe_loop E command [] w = (Inr command, w)"
| "pipe_loop E command (next_command # rest) w =
     (case cmd_StdoutPipe E command of
        Inl e \<Rightarrow> (Inl e, w)
      | Inr piped \<Rightarrow>
          (case cmd_Start E piped w of
             ((err, out), w') \<Rightarrow> pipe_loop E (next_command\<lparr>Stdin := out\<rparr>) rest w'))"

text \<open>On an empty argument list the slice expression \<open>commands[:len(commands)-1]\<close>
  panics.\<close>

definition pipeCommands ::
  "env \<Rightarrow> cmd list \<Rightarrow> world \<Rightarrow> (bytes \<times> error option) go \<times> world" where
  "pipeCommands E commands w =
     (case commands of
        [] \<Rightarrow> (Panic ''slice bounds out of range'', w)
      | first # rest \<Rightarrow>
          (case pipe_loop E first rest w of
             (Inl e, w') \<Rightarrow> (Return ([], Some e), w')
           | (Inr last_command, w') \<Rightarrow>
               (case cmd_Output E last_command w' of
                  ((final, Some e), w'') \<Rightarrow> (Return ([], Some e), w'')
                | ((final, None), w'') \<Rightarrow> (Return (final, None), w''))))"

subsection \<open>GenerateCerts (lines 173-251)\<close>

text \<open>The commands, named as the variables that hold them.\<close>

definition cmdCA1 :: "string \<Rightarrow> cmd" where
  "cmdCA1 configDir =
     exec_Command ''cfssl'' [''gencert'', ''-initca'', Sprintf ''%s/ca-csr.json'' [configDir]]"

definition cmdCA2 :: "string \<Rightarrow> cmd" where
  "cmdCA2 certsDir = exec_Command ''cfssljson'' [''-bare'', Sprintf ''%s/ca'' [certsDir]]"

definition cmd1 :: "string \<Rightarrow> string \<Rightarrow> string \<Rightarrow> cmd" where
  "cmd1 configDir certsDir name =
     exec_Command ''cfssl''
       [''gencert'', ''-ca'', Sprintf ''%s/ca.pem'' [certsDir],
        ''-ca-key'', Sprintf ''%s/ca-key.pem'' [certsDir],
        ''-config'', Sprintf ''%s/ca-config.json'' [configDir],
        ''-profile=server'', Sprintf ''%s/req-%s-csr.json'' [configDir, name]]"

definition cmd2 :: "string \<Rightarrow> string \<Rightarrow> cmd" where
  "cmd2 certsDir name =
     exec_Command ''cfssljson'' [''-bare'', Sprintf ''%s/%s'' [certsDir, name]]"

definition cmdConvertNodePkcs8 :: "string \<Rightarrow> cmd" where
  "cmdConvertNodePkcs8 certsDir =
     exec_Command ''openssl''
       [''pkcs8'', ''-topk8'', ''-in'', Sprintf ''%s/node-key.pem'' [certsDir],
        ''-out'', Sprintf ''%s/node-key.pkcs8.pem'' [certsDir], ''-nocrypt'']"

definition cmdConvertSgadmin :: "string \<Rightarrow> cmd" where
  "cmdConvertSgadmin certsDir =
     exec_Command ''openssl''
       [''pkcs12'', ''-export'', ''-inkey'', Sprintf ''%s/sgadmin-key.pem'' [certsDir],
        ''-in'', Sprintf ''%s/sgadmin.pem'' [certsDir],
        ''-out'', Sprintf ''%s/sgadmin.pkcs12'' [certsDir],
        ''-password'', ''pass:changeit'', ''-certfile'', Sprintf ''%s/ca.pem'' [certsDir]]"

definition cmdConvertNode :: "string \<Rightarrow> cmd" where
  "cmdConvertNode certsDir =
     exec_Command ''openssl''
       [''pkcs12'', ''-export'', ''-inkey'', Sprintf ''%s/node-key.pem'' [certsDir],
        ''-in'', Sprintf ''%s/node.pem'' [certsDir],
        ''-out'', Sprintf ''%s/node.pkcs12'' [certsDir],
        ''-password'', ''pass:changeit'', ''-certfile'', Sprintf ''%s/ca.pem'' [certsDir]]"

definition cmdCAJKS :: "string \<Rightarrow> cmd" where
  "cmdCAJKS certsDir =
     exec_Command ''keytool''
       [''-import'', ''-file'', Sprintf ''%s/ca.pem'' [certsDir], ''-alias'', ''root-ca'',
        ''-keystore'', Sprintf ''%s/truststore.jks'' [certsDir],
        ''-storepass'', ''changeit'', ''-srcstoretype'', ''pkcs12'', ''-noprompt'']"

definition cmdSgadminJKS :: "string \<Rightarrow> cmd" where
  "cmdSgadminJKS certsDir =
     exec_Command ''keytool''
       [''-importkeystore'', ''-srckeystore'', Sprintf ''%s/sgadmin.pkcs12'' [certsDir],
        ''-srcalias'', ''1'',
        ''-destkeystore'', Sprintf ''%s/sgadmin-keystore.jks'' [certsDir],
        ''-storepass'', ''changeit'', ''-srcstoretype'', ''pkcs12'',
        ''-srcstorepass'', ''changeit'', ''-destalias'', ''elasticsearch-admin'']"

definition cmdNodeJKS :: "string \<Rightarrow> cmd" where
  "cmdNodeJKS certsDir =
     exec_Command ''keytool''
       [''-importkeystore'', ''-srckeystore'', Sprintf ''%s/node.pkcs12'' [certsDir],
        ''-srcalias'', ''1'',
        ''-destkeystore'', Sprintf ''%s/node-keystore.jks'' [certsDir],
        ''-storepass'', ''changeit'', ''-srcstoretype'', ''pkcs12'',
        ''-srcstorepass'', ''changeit'', ''-destalias'', ''elasticsearch-node'']"

text \<open>A stage of the run, and \<open>if err != nil { return err }\<close> between two stages.\<close>

type_synonym stage = "world \<Rightarrow> error option go \<times> world"

definition andThen :: "stage \<Rightarrow> stage \<Rightarrow> stage" where
  "andThen f g w = (case f w of (Return None, w') \<Rightarrow> g w' | (r, w') \<Rightarrow> (r, w'))"

text \<open>\<open>if _, err := pipeCommands(a, b); err != nil { return err }\<close>\<close>

definition pipe_stage :: "env \<Rightarrow> cmd \<Rightarrow> cmd \<Rightarrow> stage" where
  "pipe_stage E a b w =
     (case pipeCommands E [a, b] w of
        (Panic s, w') \<Rightarrow> (Panic s, w')
      | (Return (out, err), w') \<Rightarrow> (Return err, w'))"

text \<open>\<open>if out, err := c.Output(); err != nil { return err }\<close>\<close>

definition output_stage :: "env \<Rightarrow> cmd \<Rightarrow> stage" where
  "output_stage E c w = (case cmd_Output E c w of ((out, err), w') \<Rightarrow> (Return err, w'))"

text \<open>The loop of lines 194-203.\<close>

fun leaf_loop :: "env \<Rightarrow> string \<Rightarrow> string \<Rightarrow> string list \<Rightarrow> stage" where
  "leaf_loop E configDir certsDir [] w = (Return None, w)"
| "leaf_loop E configDir certsDir (name # rest) w =
     andThen (pipe_stage E (cmd1 configDir certsDir name) (cmd2 certsDir name))
       (leaf_loop E configDir certsDir rest) w"

definition config_stage :: "env \<Rightarrow> string \<Rightarrow> string \<Rightarrow> string \<Rightarrow> string \<Rightarrow> stage" where
  "config_stage E configDir certsDir namespace clusterName w =
     (case generateConfig E configDir certsDir namespace clusterName w of
        (err, w') \<Rightarrow> (Return err, w'))"

text \<open>The results of the two \<open>cleanUp\<close> calls are not looked at.\<close>

definition GenerateCerts ::
  "env \<Rightarrow> string \<Rightarrow> string \<Rightarrow> string \<Rightarrow> string \<Rightarrow> stage" where
  "GenerateCerts E configDir certsDir namespace clusterName w =
     (let w1 = snd (cleanUp E certsDir w);
          w2 = snd (cleanUp E configDir w1)
      in andThen (config_stage E configDir certsDir namespace clusterName)
        (andThen (pipe_stage E (cmdCA1 configDir) (cmdCA2 certsDir))
        (andThen (leaf_loop E configDir certsDir [''node'', ''kibana'', ''cerebro'', ''sgadmin''])
        (andThen (output_stage E (cmdConvertNodePkcs8 certsDir))
        (andThen (output_stage E (cmdConvertSgadmin certsDir))
        (andThen (output_stage E (cmdConvertNode certsDir))
        (andThen (output_stage E (cmdCAJKS certsDir))
        (andThen (output_stage E (cmdSgadminJKS certsDir))
                 (output_stage E (cmdNodeJKS certsDir))))))))) w2)"

subsection \<open>CreateCertsSecret (lines 271-326)\<close>

text \<open>\<open>x, _ := ioutil.ReadFile(...)\<close>: the error is dropped (lines 286-297).\<close>

definition read_ignoring_error :: "env \<Rightarrow> path \<Rightarrow> world \<Rightarrow> bytes" where
  "read_ignoring_error E p w = fst (ioutil_ReadFile E p w)"

definition CreateCertsSecret ::
  "env \<Rightarrow> string \<Rightarrow> string \<Rightarrow> string \<Rightarrow> world \<Rightarrow> error option \<times> world" where
  "CreateCertsSecret E namespace clusterName certsDir w =
     (case ioutil_ReadFile E (Sprintf ''%s/node-keystore.jks'' [certsDir]) w of
        (nodeKeyStore, Some e) \<Rightarrow> (Some e, w)
      | (nodeKeyStore, None) \<Rightarrow>
          (case ioutil_ReadFile E (Sprintf ''%s/sgadmin-keystore.jks'' [certsDir]) w of
             (sgadminKeyStore, Some e) \<Rightarrow> (Some e, w)
           | (sgadminKeyStore, None) \<Rightarrow>
               (let trustStore = read_ignoring_error E (Sprintf ''%s/truststore.jks'' [certsDir]) w;
                    ca = read_ignoring_error E (Sprintf ''%s/ca.pem'' [certsDir]) w;
                    caKey = read_ignoring_error E (Sprintf ''%s/ca-key.pem'' [certsDir]) w;
                    node = read_ignoring_error E (Sprintf ''%s/node.pem'' [certsDir]) w;
                    nodeKey = read_ignoring_error E (Sprintf ''%s/node-key.pem'' [certsDir]) w;
                    nodeKeyPkcs8 =
                      read_ignoring_error E (Sprintf ''%s/node-key.pkcs8.pem'' [certsDir]) w;
                    sgadmin = read_ignoring_error E (Sprintf ''%s/sgadmin.pem'' [certsDir]) w;
                    sgadminKey =
                      read_ignoring_error E (Sprintf ''%s/sgadmin-key.pem'' [certsDir]) w;
                    kibanaKey = read_ignoring_error E (Sprintf ''%s/kibana-key.pem'' [certsDir]) w;
                    kibana = read_ignoring_error E (Sprintf ''%s/kibana.pem'' [certsDir]) w;
                    cerebroKey =
                      read_ignoring_error E (Sprintf ''%s/cerebro-key.pem'' [certsDir]) w;
                    cerebro = read_ignoring_error E (Sprintf ''%s/cerebro.pem'' [certsDir]) w;
                    secret =
                      \<lparr>Name = Sprintf ''%s-%s'' [secretName E, clusterName],
                       Data = map_of
                         [(''node-keystore.jks'', nodeKeyStore),
                          (''sgadmin-keystore.jks'', sgadminKeyStore),
                          (''truststore.jks'', trustStore),
                          (''ca.pem'', ca),
                          (''ca-key.pem'', caKey),
                          (''node.pem'', node),
                          (''node-key.pem'', nodeKey),
                          (''node-key.pkcs8.pem'', nodeKeyPkcs8),
                          (''sgadmin.pem'', sgadmin),
                          (''sgadmin-key.pem'', sgadminKey),
                          (''kibana-key.pem'', kibanaKey),
                          (''kibana.pem'', kibana),
                          (''cerebro-key.pem'', cerebroKey),
                          (''cerebro.pem'', cerebro)]\<rparr>
                in kube_Create E namespace secret w)))"

section \<open>Vocabulary of the properties\<close>

subsection \<open>Events of a run\<close>

text \<open>The event a command leaves in the trace; a command is \<open>fresh\<close> as
  \<open>exec.Command\<close> returns it.\<close>

definition ev :: "cmd \<Rightarrow> event" where
  "ev c = EvExec (Path c) (Args c)"

definition fresh :: "cmd \<Rightarrow> bool" where
  "fresh c = (\<not> StdoutSet c \<and> \<not> Started c)"

text \<open>The programs started, in order, with their arguments.\<close>

fun invocations :: "event list \<Rightarrow> (string \<times> string list) list" where
  "invocations [] = []"
| "invocations (EvExec p a # es) = (p, a) # invocations es"
| "invocations (e # es) = invocations es"

text \<open>\<open>precedes a b tr\<close>: reading \<open>tr\<close> from the start, \<open>a\<close> is met before \<open>b\<close> is, or
  \<open>b\<close> is never met.\<close>

fun precedes :: "'a \<Rightarrow> 'a \<Rightarrow> 'a list \<Rightarrow> bool" where
  "precedes a b [] = True"
| "precedes a b (x # xs) = (x \<noteq> b \<and> (x = a \<or> precedes a b xs))"

text \<open>A stage \<open>follows\<close> a plan when, from every world, the events it adds are a prefix
  of the plan, all of the plan when it returns nil, and it does not panic.\<close>

definition follows :: "stage \<Rightarrow> event list \<Rightarrow> bool" where
  "follows f plan =
     (\<forall>w. \<exists>evs. trace (snd (f w)) = trace w @ evs \<and> prefix evs plan
        \<and> (fst (f w) = Return None \<longrightarrow> evs = plan) \<and> (\<forall>s. fst (f w) \<noteq> Panic s))"

definition file_events :: "path \<Rightarrow> bytes \<Rightarrow> event list" where
  "file_events p b = [EvCreate p, EvWrite p b]"

definition leaf_config_plan ::
  "env \<Rightarrow> string \<Rightarrow> string \<Rightarrow> string \<Rightarrow> (string \<times> string) list \<Rightarrow> event list" where
  "leaf_config_plan E configDir namespace clusterName xs =
     concat (map (\<lambda>(k, v). file_events (Sprintf ''%s/%s'' [configDir, v])
        (bytes_or_nil (json_Marshal_csr E (leafCSR k namespace clusterName)))) xs)"

definition config_plan :: "env \<Rightarrow> string \<Rightarrow> string \<Rightarrow> string \<Rightarrow> event list" where
  "config_plan E configDir namespace clusterName =
     file_events (Sprintf ''%s/ca-config.json'' [configDir])
       (bytes_or_nil (json_Marshal_caconfig E caConfig))
     @ file_events (Sprintf ''%s/ca-csr.json'' [configDir])
         (bytes_or_nil (json_Marshal_csr E (caCSR namespace clusterName)))
     @ leaf_config_plan E configDir namespace clusterName (map_range (map_seed E) leafFiles)"

definition leaf_plan :: "string \<Rightarrow> string \<Rightarrow> string list \<Rightarrow> event list" where
  "leaf_plan configDir certsDir ns =
     concat (map (\<lambda>name. [ev (cmd1 configDir certsDir name), ev (cmd2 certsDir name)]) ns)"

text \<open>The leaf identities in the order lines 194-203 issue them, and the six format
  conversions of lines 205-248.\<close>

definition leaves :: "string list" where
  "leaves = [''node'', ''kibana'', ''cerebro'', ''sgadmin'']"

definition conversions :: "string \<Rightarrow> cmd list" where
  "conversions certsDir =
     [cmdConvertNodePkcs8 certsDir, cmdConvertSgadmin certsDir, cmdConvertNode certsDir,
      cmdCAJKS certsDir, cmdSgadminJKS certsDir, cmdNodeJKS certsDir]"

definition exec_plan :: "string \<Rightarrow> string \<Rightarrow> event list" where
  "exec_plan configDir certsDir =
     [ev (cmdCA1 configDir), ev (cmdCA2 certsDir)]
     @ leaf_plan configDir certsDir leaves
     @ map ev (conversions certsDir)"

subsection \<open>Command lines\<close>

text \<open>The values that follow a flag on a command line.\<close>

fun flag_values :: "string \<Rightarrow> string list \<Rightarrow> string list" where
  "flag_values f (a # b # rest) =
     (if a = f then b # flag_values f rest else flag_values f (b # rest))"
| "flag_values f [a] = []"
| "flag_values f [] = []"

text \<open>The flags with which openssl and keytool take a password, and the passwords a
  command line gives.\<close>

definition password_flags :: "string list" where
  "password_flags =
     [''-password'', ''-passin'', ''-passout'', ''-storepass'', ''-srcstorepass'',
      ''-deststorepass'', ''-keypass'', ''-srckeypass'', ''-destkeypass'']"

definition passwords :: "string list \<Rightarrow> string list" where
  "passwords args = concat (map (\<lambda>f. flag_values f args) password_flags)"

text \<open>An invocation of the program \<open>prog\<close> with \<open>sub\<close> as its first argument; the
  operations that take a password to protect what they write.\<close>

definition is_tool :: "string \<Rightarrow> string \<Rightarrow> string \<times> string list \<Rightarrow> bool" where
  "is_tool prog sub c =
     (fst c = prog \<and> (case snd c of [] \<Rightarrow> False | a # rest \<Rightarrow> a = sub))"

text \<open>Some invocation converts the private key of \<open>name\<close> to PKCS8.\<close>

definition pkcs8_made_for :: "string \<Rightarrow> string \<Rightarrow> (string \<times> string list) list \<Rightarrow> bool" where
  "pkcs8_made_for certsDir name cs =
     list_ex (\<lambda>c. is_tool ''openssl'' ''pkcs8'' c
                \<and> Sprintf ''%s/%s-key.pem'' [certsDir, name] \<in> set (flag_values ''-in'' (snd c)))
       cs"

definition protected_op :: "string \<times> string list \<Rightarrow> bool" where
  "protected_op c = (is_tool ''openssl'' ''pkcs12'' c \<or> fst c = ''keytool'')"

subsection \<open>The bundle\<close>

text \<open>The keys of the map of lines 302-317.\<close>

definition bundleKeys :: "string list" where
  "bundleKeys =
     [''node-keystore.jks'', ''sgadmin-keystore.jks'', ''truststore.jks'', ''ca.pem'',
      ''ca-key.pem'', ''node.pem'', ''node-key.pem'', ''node-key.pkcs8.pem'', ''sgadmin.pem'',
      ''sgadmin-key.pem'', ''kibana-key.pem'', ''kibana.pem'', ''cerebro-key.pem'',
      ''cerebro.pem'']"

subsection \<open>The file system after cleanUp\<close>

definition removable :: "env \<Rightarrow> string \<Rightarrow> string \<Rightarrow> bool" where
  "removable E dir n = (fault E OpRemove (filepath_Join dir n) = None)"

definition survives :: "string \<Rightarrow> string list \<Rightarrow> path \<Rightarrow> bool" where
  "survives dir ns q = (\<forall>n \<in> set ns. \<not> within (filepath_Join dir n) q)"

definition open_error :: "env \<Rightarrow> string \<Rightarrow> (path \<times> node) list \<Rightarrow> error option" where
  "open_error E dir files =
     (case fault E OpOpen dir of
        Some e \<Rightarrow> Some e
      | None \<Rightarrow>
          (case map_of files dir of
             None \<Rightarrow> Some (ENOENT dir)
           | Some n \<Rightarrow>
               (case fault E OpReaddir dir of
                  Some e \<Rightarrow> Some e
                | None \<Rightarrow> (case n of Dir \<Rightarrow> None | File b \<Rightarrow> Some (ENOTDIR dir)))))"

subsection \<open>Sample environments\<close>

text \<open>An environment in which no system call fails and every program exits with
  status 0 after writing the files its command line names; a world with the two working
  directories and one stale artifact; and variations in which one thing goes wrong.\<close>

definition tool_outputs :: "string \<Rightarrow> string list \<Rightarrow> path list" where
  "tool_outputs prog args =
     (if prog = ''cfssljson''
      then concat (map (\<lambda>p. [p @ ''.pem'', p @ ''-key.pem'', p @ ''.csr''])
             (flag_values ''-bare'' args))
      else flag_values ''-out'' args @ flag_values ''-keystore'' args
           @ flag_values ''-destkeystore'' args)"

definition sample_spawn ::
  "string \<Rightarrow> string list \<Rightarrow> stdin \<Rightarrow> (path \<times> node) list \<Rightarrow> proc_outcome" where
  "sample_spawn prog args input files =
     Exited 0 [] (fold (\<lambda>p. fs_put p (File ''data'')) (tool_outputs prog args) files)"

definition sample_env :: env where
  "sample_env =
     \<lparr>fault = (\<lambda>op p. None),
      json_Marshal_caconfig = (\<lambda>c. Inr ''{signing}''),
      json_Marshal_csr = (\<lambda>r. Inr (''{csr '' @ CN r @ ''}'')),
      map_seed = [],
      pipe_fault = None,
      spawn = sample_spawn,
      api_fault = (\<lambda>namespace name. None),
      secretName = ''es-certs''\<rparr>"

definition sample_world :: world where
  "sample_world =
     \<lparr>fs = [(''/config'', Dir), (''/certs'', Dir), (''/certs/stale.pem'', File ''old'')],
      trace = [],
      secrets = []\<rparr>"

text \<open>The operating system refuses to remove the stale artifact.\<close>

definition stuck_env :: env where
  "stuck_env =
     sample_env\<lparr>fault :=
       (\<lambda>op p. if op = OpRemove \<and> p = ''/certs/stale.pem'' then Some (EPERM p) else None)\<rparr>"

text \<open>The operating system refuses to create the first descriptor file.\<close>

definition readonly_env :: env where
  "readonly_env =
     sample_env\<lparr>fault :=
       (\<lambda>op p. if op = OpCreate \<and> p = ''/config/ca-config.json'' then Some (EPERM p)
                else None)\<rparr>"

text \<open>Only \<open>echo\<close> is installed: it prints its arguments; no other program starts.\<close>

definition echo_env :: env where
  "echo_env =
     sample_env\<lparr>spawn :=
       (\<lambda>prog args input files.
          if prog = ''echo'' then Exited 0 (concat args) files else StartFail (ErrStart prog))\<rparr>"

text \<open>The certificates directory after a complete run, with \<open>kibana.pem\<close> lost.\<close>

definition bundle_world :: world where
  "bundle_world =
     \<lparr>fs = [(''/certs'', Dir),
            (''/certs/node-keystore.jks'', File ''NKS''),
            (''/certs/sgadmin-keystore.jks'', File ''SKS''),
            (''/certs/truststore.jks'', File ''TS''),
            (''/certs/ca.pem'', File ''CA''),
            (''/certs/ca-key.pem'', File ''CAKEY''),
            (''/certs/node.pem'', File ''N''),
            (''/certs/node-key.pem'', File ''NKEY''),
            (''/certs/node-key.pkcs8.pem'', File ''NP8''),
            (''/certs/sgadmin.pem'', File ''S''),
            (''/certs/sgadmin-key.pem'', File ''SKEY''),
            (''/certs/kibana-key.pem'', File ''KKEY''),
            (''/certs/cerebro-key.pem'', File ''CKEY''),
            (''/certs/cerebro.pem'', File ''C'')],
      trace = [],
      secrets = []\<rparr>"

section \<open>The events of a run\<close>

lemma trace_emit [simp]: "trace (emit e w) = trace w @ [e]"
  by (simp add: emit_def)

lemma fs_emit [simp]: "fs (emit e w) = fs w"
  by (simp add: emit_def)

lemma secrets_emit [simp]: "secrets (emit e w) = secrets w"
  by (simp add: emit_def)

lemma follows_andThen:
  assumes f: "follows f P" and g: "follows g Q"
  shows "follows (andThen f g) (P @ Q)"
  unfolding follows_def
proof
  fix w
  obtain r w' where fw: "f w = (r, w')" by (cases "f w")
  from f obtain evs where e1: "trace w' = trace w @ evs" "prefix evs P"
    "r = Return None \<longrightarrow> evs = P" "\<forall>s. r \<noteq> Panic s"
    unfolding follows_def using fw by (metis fst_conv snd_conv)
  show "\<exists>evs. trace (snd (andThen f g w)) = trace w @ evs \<and> prefix evs (P @ Q)
        \<and> (fst (andThen f g w) = Return None \<longrightarrow> evs = P @ Q) \<and> (\<forall>s. fst (andThen f g w) \<noteq> Panic s)"
  proof (cases "r = Return None")
    case True
    obtain evs2 where e2: "trace (snd (g w')) = trace w' @ evs2" "prefix evs2 Q"
      "fst (g w') = Return None \<longrightarrow> evs2 = Q" "\<forall>s. fst (g w') \<noteq> Panic s"
      using g unfolding follows_def by blast
    have a: "andThen f g w = g w'" using True fw by (simp add: andThen_def)
    show ?thesis
      apply (rule exI [of _ "P @ evs2"])
      using e1 e2 True a by simp
  next
    case False
    have a: "andThen f g w = (r, w')" using False fw
      by (auto simp: andThen_def split: go.splits option.splits)
    show ?thesis
      apply (rule exI [of _ evs])
      using e1 False a by (auto simp: prefix_def)
  qed
qed

lemma follows_output: "fresh c \<Longrightarrow> follows (output_stage E c) [ev c]"
  unfolding follows_def output_stage_def cmd_Output_def fresh_def ev_def
  by (auto split: proc_outcome.splits)

lemma trace_cmd_Start:
  "\<not> Started c \<Longrightarrow> trace (snd (cmd_Start E c w)) = trace w @ [ev c]"
  by (simp add: cmd_Start_def ev_def split: proc_outcome.splits)

lemma trace_cmd_Output:
  "fresh c \<Longrightarrow> trace (snd (cmd_Output E c w)) = trace w @ [ev c]"
  by (simp add: cmd_Output_def ev_def fresh_def split: proc_outcome.splits)

lemma pipeCommands_two:
  assumes "fresh a" "fresh b"
  shows "pipeCommands E [a, b] w =
     (case pipe_fault E of
        Some e \<Rightarrow> (Return ([], Some e), w)
      | None \<Rightarrow>
          (case cmd_Start E (a\<lparr>StdoutSet := True\<rparr>) w of
             ((err, out), w') \<Rightarrow>
               (case cmd_Output E (b\<lparr>Stdin := out\<rparr>) w' of
                  ((final, Some e), w'') \<Rightarrow> (Return ([], Some e), w'')
                | ((final, None), w'') \<Rightarrow> (Return (final, None), w''))))"
  using assms
  by (simp add: pipeCommands_def cmd_StdoutPipe_def fresh_def split: option.splits prod.splits)

lemma follows_pipe:
  assumes a: "fresh a" and b: "fresh b"
  shows "follows (pipe_stage E a b) [ev a, ev b]"
  unfolding follows_def
proof
  fix w
  show "\<exists>evs. trace (snd (pipe_stage E a b w)) = trace w @ evs \<and> prefix evs [ev a, ev b]
        \<and> (fst (pipe_stage E a b w) = Return None \<longrightarrow> evs = [ev a, ev b])
        \<and> (\<forall>s. fst (pipe_stage E a b w) \<noteq> Panic s)"
  proof (cases "pipe_fault E")
    case (Some e)
    then have "pipe_stage E a b w = (Return (Some e), w)"
      by (simp add: pipe_stage_def pipeCommands_two [OF a b])
    then show ?thesis by simp
  next
    case None
    obtain err out w' where st: "cmd_Start E (a\<lparr>StdoutSet := True\<rparr>) w = ((err, out), w')"
      by (metis prod.exhaust)
    obtain final r w'' where ou: "cmd_Output E (b\<lparr>Stdin := out\<rparr>) w' = ((final, r), w'')"
      by (metis prod.exhaust)
    have t1: "trace w' = trace w @ [ev a]"
      using trace_cmd_Start [of "a\<lparr>StdoutSet := True\<rparr>" E w] a st
      by (simp add: fresh_def ev_def)
    have t2: "trace w'' = trace w' @ [ev b]"
      using trace_cmd_Output [of "b\<lparr>Stdin := out\<rparr>" E w'] b ou
      by (simp add: fresh_def ev_def)
    have res: "pipe_stage E a b w = (Return r, w'')"
      using None st ou
      by (simp add: pipe_stage_def pipeCommands_two [OF a b] split: option.splits)
    show ?thesis
      apply (rule exI [of _ "[ev a, ev b]"])
      using res t1 t2 by simp
  qed
qed

lemma follows_leaf_loop:
  "follows (leaf_loop E configDir certsDir ns) (leaf_plan configDir certsDir ns)"
proof (induction ns)
  case Nil
  show ?case by (simp add: follows_def leaf_plan_def)
next
  case (Cons name ns)
  have p: "follows (pipe_stage E (cmd1 configDir certsDir name) (cmd2 certsDir name))
             [ev (cmd1 configDir certsDir name), ev (cmd2 certsDir name)]"
    by (rule follows_pipe) (simp_all add: fresh_def cmd1_def cmd2_def exec_Command_def)
  have eq: "leaf_loop E configDir certsDir (name # ns)
              = andThen (pipe_stage E (cmd1 configDir certsDir name) (cmd2 certsDir name))
                  (leaf_loop E configDir certsDir ns)"
    by (rule ext) simp
  have pl: "leaf_plan configDir certsDir (name # ns)
              = [ev (cmd1 configDir certsDir name), ev (cmd2 certsDir name)]
                @ leaf_plan configDir certsDir ns"
    by (simp add: leaf_plan_def)
  show ?case
    unfolding eq pl using p Cons.IH by (rule follows_andThen)
qed

lemma create_write_trace:
  assumes "os_Create E p w = ((f, err), w1)" and "file_Write E f b w1 = (r, w2)"
  shows "\<exists>evs. trace w2 = trace w @ evs \<and> prefix evs (file_events p b)
           \<and> (r = None \<longrightarrow> evs = file_events p b)"
proof (cases f)
  case None
  with assms have "trace w2 = trace w @ [EvCreate p]" "r \<noteq> None"
    by (auto simp: os_Create_def file_Write_def split: option.splits if_splits)
  then show ?thesis by (simp add: file_events_def)
next
  case (Some q)
  with assms(1) have q: "q = p" and t1: "trace w1 = trace w @ [EvCreate p]"
    by (auto simp: os_Create_def split: option.splits if_splits)
  show ?thesis
  proof (cases r)
    case None
    with assms(2) Some q t1 have "trace w2 = trace w @ [EvCreate p, EvWrite p b]"
      by (auto simp: file_Write_def split: option.splits)
    then show ?thesis by (simp add: file_events_def)
  next
    case (Some e)
    with assms(2) \<open>f = Some q\<close> q t1 have "trace w2 = trace w @ [EvCreate p]"
      by (auto simp: file_Write_def split: option.splits)
    then show ?thesis using Some by (simp add: file_events_def)
  qed
qed

lemma generateConfig_loop_trace:
  "\<exists>evs. trace (snd (generateConfig_loop E configDir namespace clusterName xs w)) = trace w @ evs
     \<and> prefix evs (leaf_config_plan E configDir namespace clusterName xs)
     \<and> (fst (generateConfig_loop E configDir namespace clusterName xs w) = None
          \<longrightarrow> evs = leaf_config_plan E configDir namespace clusterName xs)"
proof (induction xs arbitrary: w)
  case Nil
  show ?case by (simp add: leaf_config_plan_def)
next
  case (Cons x xs)
  obtain k v where x: "x = (k, v)" by (cases x)
  let ?p = "Sprintf ''%s/%s'' [configDir, v]"
  let ?b = "bytes_or_nil (json_Marshal_csr E (leafCSR k namespace clusterName))"
  obtain f err w1 where c: "os_Create E ?p w = ((f, err), w1)" by (metis prod.exhaust)
  obtain r w2 where wr: "file_Write E f ?b w1 = (r, w2)" by (metis prod.exhaust)
  from create_write_trace [OF c wr] obtain evs where
    e: "trace w2 = trace w @ evs" "prefix evs (file_events ?p ?b)" "r = None \<longrightarrow> evs = file_events ?p ?b"
    by blast
  have pl: "leaf_config_plan E configDir namespace clusterName (x # xs)
              = file_events ?p ?b @ leaf_config_plan E configDir namespace clusterName xs"
    by (simp add: leaf_config_plan_def x del: Sprintf.simps)
  show ?case
  proof (cases r)
    case (Some e')
    have "generateConfig_loop E configDir namespace clusterName (x # xs) w = (Some e', w2)"
      using c wr Some x by (simp del: Sprintf.simps)
    then show ?thesis
      apply (intro exI [of _ evs])
      using e Some pl by (simp del: Sprintf.simps)
  next
    case None
    have g: "generateConfig_loop E configDir namespace clusterName (x # xs) w
          = generateConfig_loop E configDir namespace clusterName xs w2"
      using c wr None x by (simp del: Sprintf.simps)
    from Cons.IH [of w2] obtain evs2 where
      e2: "trace (snd (generateConfig_loop E configDir namespace clusterName xs w2)) = trace w2 @ evs2"
        "prefix evs2 (leaf_config_plan E configDir namespace clusterName xs)"
        "fst (generateConfig_loop E configDir namespace clusterName xs w2) = None
           \<longrightarrow> evs2 = leaf_config_plan E configDir namespace clusterName xs"
      by (elim exE conjE)
    show ?thesis
      apply (rule exI [of _ "file_events ?p ?b @ evs2"])
      using e e2 None g pl by (simp del: Sprintf.simps)
  qed
qed

lemma follows_config_stage:
  "follows (config_stage E configDir certsDir namespace clusterName)
     (config_plan E configDir namespace clusterName)"
  unfolding follows_def
proof
  fix w
  let ?G = "generateConfig E configDir certsDir namespace clusterName w"
  let ?p1 = "Sprintf ''%s/ca-config.json'' [configDir]"
  let ?p2 = "Sprintf ''%s/ca-csr.json'' [configDir]"
  let ?b2 = "bytes_or_nil (json_Marshal_csr E (caCSR namespace clusterName))"
  let ?xs = "map_range (map_seed E) leafFiles"
  let ?L = "leaf_config_plan E configDir namespace clusterName ?xs"
  have cs: "config_stage E configDir certsDir namespace clusterName w = (Return (fst ?G), snd ?G)"
    by (simp add: config_stage_def split: prod.splits)
  have "\<exists>evs. trace (snd ?G) = trace w @ evs
          \<and> prefix evs (config_plan E configDir namespace clusterName)
          \<and> (fst ?G = None \<longrightarrow> evs = config_plan E configDir namespace clusterName)"
  proof (cases "json_Marshal_caconfig E caConfig")
    case (Inl e)
    then have "?G = (Some e, w)" by (simp add: generateConfig_def)
    then show ?thesis by simp
  next
    case (Inr b1)
    have pl: "config_plan E configDir namespace clusterName
                = file_events ?p1 b1 @ file_events ?p2 ?b2 @ ?L"
      by (simp add: config_plan_def Inr bytes_or_nil_def del: Sprintf.simps)
    obtain f err w1 where c1: "os_Create E ?p1 w = ((f, err), w1)" by (metis prod.exhaust)
    obtain r1 w2 where wr1: "file_Write E f b1 w1 = (r1, w2)" by (metis prod.exhaust)
    from create_write_trace [OF c1 wr1] obtain evs1 where
      e1: "trace w2 = trace w @ evs1" "prefix evs1 (file_events ?p1 b1)"
          "r1 = None \<longrightarrow> evs1 = file_events ?p1 b1"
      by (elim exE conjE)
    show ?thesis
    proof (cases r1)
      case (Some e)
      have "?G = (Some e, w2)"
        using Inr c1 wr1 Some by (simp add: generateConfig_def del: Sprintf.simps)
      then show ?thesis
        apply (intro exI [of _ evs1])
        using e1 Some pl by (simp del: Sprintf.simps)
    next
      case None
      obtain f' err' w3 where c2: "os_Create E ?p2 w2 = ((f', err'), w3)" by (metis prod.exhaust)
      obtain r2 w4 where wr2: "file_Write E f' ?b2 w3 = (r2, w4)" by (metis prod.exhaust)
      from create_write_trace [OF c2 wr2] obtain evs2 where
        e2: "trace w4 = trace w2 @ evs2" "prefix evs2 (file_events ?p2 ?b2)"
            "r2 = None \<longrightarrow> evs2 = file_events ?p2 ?b2"
        by (elim exE conjE)
      show ?thesis
      proof (cases r2)
        case (Some e)
        have "?G = (Some e, w4)"
          using Inr c1 wr1 None c2 wr2 Some by (simp add: generateConfig_def del: Sprintf.simps)
        then show ?thesis
          apply (intro exI [of _ "file_events ?p1 b1 @ evs2"])
          using e1 e2 None Some pl by (simp del: Sprintf.simps)
      next
        case None2: None
        have g: "?G = generateConfig_loop E configDir namespace clusterName ?xs w4"
          using Inr c1 wr1 None c2 wr2 None2 by (simp add: generateConfig_def del: Sprintf.simps)
        from generateConfig_loop_trace [of E configDir namespace clusterName ?xs w4]
        obtain evs3 where
          e3: "trace (snd (generateConfig_loop E configDir namespace clusterName ?xs w4))
                 = trace w4 @ evs3"
              "prefix evs3 ?L"
              "fst (generateConfig_loop E configDir namespace clusterName ?xs w4) = None
                 \<longrightarrow> evs3 = ?L"
          by (elim exE conjE)
        show ?thesis
          apply (intro exI [of _ "file_events ?p1 b1 @ file_events ?p2 ?b2 @ evs3"])
          using e1 e2 e3 None None2 g pl by (simp del: Sprintf.simps)
      qed
    qed
  qed
  then show "\<exists>evs. trace (snd (config_stage E configDir certsDir namespace clusterName w))
                 = trace w @ evs
          \<and> prefix evs (config_plan E configDir namespace clusterName)
          \<and> (fst (config_stage E configDir certsDir namespace clusterName w) = Return None
                \<longrightarrow> evs = config_plan E configDir namespace clusterName)
          \<and> (\<forall>s. fst (config_stage E configDir certsDir namespace clusterName w) \<noteq> Panic s)"
    by (simp add: cs)
qed

lemma cleanUp_loop_trace:
  "\<exists>ps. trace (snd (cleanUp_loop E dir ns w)) = trace w @ map EvRemoveAll ps"
proof (induction ns arbitrary: w)
  case Nil
  show ?case by (intro exI [of _ "[]"]) simp
next
  case (Cons n ns)
  let ?p = "filepath_Join dir n"
  obtain r w' where rm: "os_RemoveAll E ?p w = (r, w')" by (metis prod.exhaust)
  then have t: "trace w' = trace w @ [EvRemoveAll ?p]"
    by (auto simp: os_RemoveAll_def split: option.splits)
  show ?case
  proof (cases r)
    case (Some e)
    then have "cleanUp_loop E dir (n # ns) w = (Some e, w')" using rm by simp
    then show ?thesis by (intro exI [of _ "[?p]"]) (simp add: t del: cleanUp_loop.simps)
  next
    case None
    then have g: "cleanUp_loop E dir (n # ns) w = cleanUp_loop E dir ns w'" using rm by simp
    from Cons.IH [of w'] obtain ps where
      "trace (snd (cleanUp_loop E dir ns w')) = trace w' @ map EvRemoveAll ps"
      by (elim exE)
    then show ?thesis by (intro exI [of _ "?p # ps"]) (simp add: g t del: cleanUp_loop.simps)
  qed
qed

lemma cleanUp_trace:
  "\<exists>ps. trace (snd (cleanUp E dir w)) = trace w @ EvOpen dir # map EvRemoveAll ps"
proof -
  obtain r w1 where op: "os_Open E dir w = (r, w1)" by (metis prod.exhaust)
  then have t: "trace w1 = trace w @ [EvOpen dir]"
    by (auto simp: os_Open_def)
  show ?thesis
  proof (cases r)
    case (Inl e)
    then have "cleanUp E dir w = (Some e, w1)" using op by (simp add: cleanUp_def)
    then show ?thesis by (intro exI [of _ "[]"]) (simp add: t)
  next
    case (Inr d)
    show ?thesis
    proof (cases "Readdirnames E d w1")
      case (Inl e)
      then have "cleanUp E dir w = (Some e, w1)" using op Inr by (simp add: cleanUp_def)
      then show ?thesis by (intro exI [of _ "[]"]) (simp add: t)
    next
      case Inr2: (Inr ns)
      then have g: "cleanUp E dir w = cleanUp_loop E dir ns w1"
        using op Inr by (simp add: cleanUp_def)
      from cleanUp_loop_trace [of E dir ns w1] obtain ps where
        "trace (snd (cleanUp_loop E dir ns w1)) = trace w1 @ map EvRemoveAll ps"
        by (elim exE)
      then show ?thesis by (intro exI [of _ ps]) (simp add: g t)
    qed
  qed
qed

lemma fresh_exec_Command [simp]: "fresh (exec_Command name arg)"
  by (simp add: fresh_def exec_Command_def)

lemma follows_exec_stages:
  "follows
     (andThen (pipe_stage E (cmdCA1 configDir) (cmdCA2 certsDir))
     (andThen (leaf_loop E configDir certsDir [''node'', ''kibana'', ''cerebro'', ''sgadmin''])
     (andThen (output_stage E (cmdConvertNodePkcs8 certsDir))
     (andThen (output_stage E (cmdConvertSgadmin certsDir))
     (andThen (output_stage E (cmdConvertNode certsDir))
     (andThen (output_stage E (cmdCAJKS certsDir))
     (andThen (output_stage E (cmdSgadminJKS certsDir))
              (output_stage E (cmdNodeJKS certsDir)))))))))
     (exec_plan configDir certsDir)"
proof -
  have fr: "fresh (cmdCA1 configDir)" "fresh (cmdCA2 certsDir)"
    "fresh (cmdConvertNodePkcs8 certsDir)" "fresh (cmdConvertSgadmin certsDir)"
    "fresh (cmdConvertNode certsDir)" "fresh (cmdCAJKS certsDir)"
    "fresh (cmdSgadminJKS certsDir)" "fresh (cmdNodeJKS certsDir)"
    by (simp_all add: cmdCA1_def cmdCA2_def cmdConvertNodePkcs8_def cmdConvertSgadmin_def
          cmdConvertNode_def cmdCAJKS_def cmdSgadminJKS_def cmdNodeJKS_def)
  have pl: "exec_plan configDir certsDir =
      [ev (cmdCA1 configDir), ev (cmdCA2 certsDir)]
      @ leaf_plan configDir certsDir [''node'', ''kibana'', ''cerebro'', ''sgadmin'']
      @ [ev (cmdConvertNodePkcs8 certsDir)] @ [ev (cmdConvertSgadmin certsDir)]
      @ [ev (cmdConvertNode certsDir)] @ [ev (cmdCAJKS certsDir)]
      @ [ev (cmdSgadminJKS certsDir)] @ [ev (cmdNodeJKS certsDir)]"
    by (simp add: exec_plan_def conversions_def leaves_def)
  show ?thesis
    unfolding pl
    by (intro follows_andThen follows_pipe follows_leaf_loop follows_output fr)
qed

lemma GenerateCerts_shape:
  "\<exists>ps1 ps2 evs.
     trace (snd (GenerateCerts E configDir certsDir namespace clusterName w))
       = trace w @ EvOpen certsDir # map EvRemoveAll ps1 @ EvOpen configDir # map EvRemoveAll ps2
           @ evs
     \<and> prefix evs (config_plan E configDir namespace clusterName @ exec_plan configDir certsDir)
     \<and> (fst (GenerateCerts E configDir certsDir namespace clusterName w) = Return None
           \<longrightarrow> evs = config_plan E configDir namespace clusterName @ exec_plan configDir certsDir)
     \<and> (\<forall>s. fst (GenerateCerts E configDir certsDir namespace clusterName w) \<noteq> Panic s)"
proof -
  let ?w1 = "snd (cleanUp E certsDir w)"
  let ?w2 = "snd (cleanUp E configDir ?w1)"
  let ?S = "andThen (config_stage E configDir certsDir namespace clusterName)
     (andThen (pipe_stage E (cmdCA1 configDir) (cmdCA2 certsDir))
     (andThen (leaf_loop E configDir certsDir [''node'', ''kibana'', ''cerebro'', ''sgadmin''])
     (andThen (output_stage E (cmdConvertNodePkcs8 certsDir))
     (andThen (output_stage E (cmdConvertSgadmin certsDir))
     (andThen (output_stage E (cmdConvertNode certsDir))
     (andThen (output_stage E (cmdCAJKS certsDir))
     (andThen (output_stage E (cmdSgadminJKS certsDir))
              (output_stage E (cmdNodeJKS certsDir)))))))))"
  let ?P = "config_plan E configDir namespace clusterName @ exec_plan configDir certsDir"
  have g: "GenerateCerts E configDir certsDir namespace clusterName w = ?S ?w2"
    by (simp add: GenerateCerts_def Let_def)
  have "follows ?S ?P"
    by (intro follows_andThen follows_config_stage follows_exec_stages)
  then obtain evs where e: "trace (snd (?S ?w2)) = trace ?w2 @ evs" "prefix evs ?P"
    "fst (?S ?w2) = Return None \<longrightarrow> evs = ?P" "\<forall>s. fst (?S ?w2) \<noteq> Panic s"
    unfolding follows_def by (elim allE [of _ ?w2] exE conjE)
  from cleanUp_trace [of E certsDir w] obtain ps1 where
    c1: "trace ?w1 = trace w @ EvOpen certsDir # map EvRemoveAll ps1" by (elim exE)
  from cleanUp_trace [of E configDir ?w1] obtain ps2 where
    c2: "trace ?w2 = trace ?w1 @ EvOpen configDir # map EvRemoveAll ps2" by (elim exE)
  show ?thesis
    apply (rule exI [of _ ps1], rule exI [of _ ps2], rule exI [of _ evs])
    unfolding g using e c1 c2 by simp
qed

section \<open>The file system after cleanUp\<close>

lemma cleanUp_loop_result:
  "fs (snd (cleanUp_loop E dir ns w))
     = filter (\<lambda>(q, n). survives dir (takeWhile (removable E dir) ns) q) (fs w)
   \<and> fst (cleanUp_loop E dir ns w)
     = (case dropWhile (removable E dir) ns of
          [] \<Rightarrow> None
        | n # rest \<Rightarrow> fault E OpRemove (filepath_Join dir n))"
proof (induction ns arbitrary: w)
  case Nil
  show ?case by (simp add: survives_def)
next
  case (Cons n ns)
  show ?case
  proof (cases "fault E OpRemove (filepath_Join dir n)")
    case (Some e)
    then show ?thesis by (simp add: os_RemoveAll_def removable_def survives_def)
  next
    case None
    let ?w' = "emit (EvRemoveAll (filepath_Join dir n))
                 (w\<lparr>fs := filter (\<lambda>(q, n'). \<not> within (filepath_Join dir n) q) (fs w)\<rparr>)"
    have g: "cleanUp_loop E dir (n # ns) w = cleanUp_loop E dir ns ?w'"
      using None by (simp add: os_RemoveAll_def)
    have rn: "removable E dir n" using None by (simp add: removable_def)
    have "filter (\<lambda>(q, n'). survives dir (takeWhile (removable E dir) ns) q) (fs ?w')
            = filter (\<lambda>(q, n'). survives dir (takeWhile (removable E dir) (n # ns)) q) (fs w)"
      using rn by (auto simp: survives_def intro: filter_cong)
    then show ?thesis
      unfolding g using Cons.IH [of ?w'] rn by simp
  qed
qed

lemma within_Join:
  assumes "CHR ''/'' \<notin> set name"
  shows "within (filepath_Join dir n) (filepath_Join dir name) \<longleftrightarrow> name = n"
proof
  assume "within (filepath_Join dir n) (filepath_Join dir name)"
  then consider "name = n" | "take (length (dir @ ''/'' @ n) + 1) (dir @ ''/'' @ name) = (dir @ ''/'' @ n) @ ''/''"
    by (auto simp: within_def filepath_Join_def)
  then show "name = n"
  proof cases
    case 1 then show ?thesis .
  next
    case 2
    then have "take (length n + 1) name = n @ ''/''" by simp
    then have "CHR ''/'' \<in> set (take (length n + 1) name)" by simp
    then have "CHR ''/'' \<in> set name" by (rule in_set_takeD)
    with assms show ?thesis by simp
  qed
next
  assume "name = n" then show "within (filepath_Join dir n) (filepath_Join dir name)"
    by (simp add: within_def)
qed

lemma not_within_dir: "\<not> within (filepath_Join dir n) dir"
proof
  assume "within (filepath_Join dir n) dir"
  then have "length dir \<ge> length dir + 1"
    unfolding within_def filepath_Join_def
  proof
    assume "dir = dir @ ''/'' @ n" then show ?thesis by simp
  next
    assume a: "take (length (dir @ ''/'' @ n) + 1) dir = (dir @ ''/'' @ n) @ ''/''"
    have "length (take (length (dir @ ''/'' @ n) + 1) dir) \<le> length dir" by simp
    with a show ?thesis by simp
  qed
  then show False by simp
qed

lemma is_child_Join: "is_child dir q \<Longrightarrow> q = filepath_Join dir (drop (length dir + 1) q)"
  unfolding is_child_def filepath_Join_def
  by (metis append.assoc append_take_drop_id)

lemma map_of_filter_fst:
  "map_of (filter (\<lambda>(q, n). P q) xs) k = (if P k then map_of xs k else None)"
  by (induction xs) auto

lemma entries_after:
  "entries dir (filter (\<lambda>(q, n). survives dir ns q) files)
     = filter (\<lambda>x. x \<notin> set ns) (entries dir files)"
proof -
  have *: "is_child dir q \<Longrightarrow> survives dir ns q \<longleftrightarrow> drop (length dir + 1) q \<notin> set ns" for q
  proof -
    assume c: "is_child dir q"
    let ?name = "drop (length dir + 1) q"
    have q: "q = filepath_Join dir ?name" using c by (rule is_child_Join)
    have ns: "CHR ''/'' \<notin> set ?name" using c by (simp add: is_child_def)
    have "survives dir ns q \<longleftrightarrow> (\<forall>n \<in> set ns. \<not> within (filepath_Join dir n) (filepath_Join dir ?name))"
      unfolding survives_def using q by simp
    also have "\<dots> \<longleftrightarrow> (\<forall>n \<in> set ns. ?name \<noteq> n)"
      using within_Join [OF ns] by simp
    finally show ?thesis by auto
  qed
  show ?thesis
    unfolding entries_def
    by (induction files) (auto simp: *)
qed

lemma cleanUp_unfold:
  "cleanUp E dir w =
     (case open_error E dir (fs w) of
        Some e \<Rightarrow> (Some e, emit (EvOpen dir) w)
      | None \<Rightarrow> cleanUp_loop E dir (entries dir (fs w)) (emit (EvOpen dir) w))"
  by (simp add: cleanUp_def os_Open_def Readdirnames_def open_error_def
        split: option.splits node.splits)

lemma open_error_None_iff:
  "open_error E dir files = None \<longleftrightarrow>
     fault E OpOpen dir = None \<and> fault E OpReaddir dir = None \<and> map_of files dir = Some Dir"
  by (auto simp: open_error_def split: option.splits node.splits)

lemma survives_dir: "survives dir ns dir"
  by (simp add: survives_def not_within_dir)

text \<open>
  Claim C7. \<open>cleanUp\<close> is idempotent: a second call right after the first returns what the
  first returned and leaves the file system as the first left it, whatever the operating
  system refused. When \<open>cleanUp\<close> returns nil, the directory has no entry left and is
  itself still there.
\<close>

theorem cleanUp_empties_and_is_idempotent:
  "fst (cleanUp E dir (snd (cleanUp E dir w))) = fst (cleanUp E dir w)
   \<and> fs (snd (cleanUp E dir (snd (cleanUp E dir w)))) = fs (snd (cleanUp E dir w))
   \<and> (fst (cleanUp E dir w) = None \<longrightarrow>
        entries dir (fs (snd (cleanUp E dir w))) = []
        \<and> map_of (fs (snd (cleanUp E dir w))) dir = Some Dir)"
proof (cases "open_error E dir (fs w)")
  case (Some e)
  then have 1: "cleanUp E dir w = (Some e, emit (EvOpen dir) w)"
    by (simp add: cleanUp_unfold)
  have "open_error E dir (fs (emit (EvOpen dir) w)) = Some e" using Some by simp
  then have "cleanUp E dir (emit (EvOpen dir) w) = (Some e, emit (EvOpen dir) (emit (EvOpen dir) w))"
    by (simp add: cleanUp_unfold)
  then show ?thesis using 1 by simp
next
  case None
  let ?w1 = "emit (EvOpen dir) w"
  let ?names = "entries dir (fs w)"
  let ?tw = "takeWhile (removable E dir) ?names"
  let ?dw = "dropWhile (removable E dir) ?names"
  let ?fs' = "filter (\<lambda>(q, n). survives dir ?tw q) (fs w)"
  let ?r = "(case ?dw of [] \<Rightarrow> None | n # rest \<Rightarrow> fault E OpRemove (filepath_Join dir n))"
  have 1: "cleanUp E dir w = cleanUp_loop E dir ?names ?w1"
    using None by (simp add: cleanUp_unfold)
  have fs1: "fs (snd (cleanUp E dir w)) = ?fs'" and r1: "fst (cleanUp E dir w) = ?r"
    unfolding 1 using cleanUp_loop_result [of E dir ?names ?w1] by simp_all
  have dir: "map_of (fs w) dir = Some Dir" using None by (simp add: open_error_None_iff)
  have dir': "map_of ?fs' dir = Some Dir"
    by (simp add: map_of_filter_fst survives_dir dir)
  have oe: "open_error E dir ?fs' = None"
    using None dir' by (simp add: open_error_None_iff)
  let ?w' = "snd (cleanUp E dir w)"
  let ?names' = "entries dir ?fs'"
  have n': "?names' = filter (\<lambda>x. x \<notin> set ?tw) ?dw"
  proof -
    have "?names' = filter (\<lambda>x. x \<notin> set ?tw) (?tw @ ?dw)"
      by (simp add: entries_after)
    then show ?thesis by (simp del: takeWhile_dropWhile_id)
  qed
  have 2: "cleanUp E dir ?w' = cleanUp_loop E dir ?names' (emit (EvOpen dir) ?w')"
    using oe cleanUp_unfold [of E dir ?w'] by (simp add: fs1)
  have tw': "takeWhile (removable E dir) ?names' = []"
    and dw': "(case dropWhile (removable E dir) ?names' of [] \<Rightarrow> None
               | n # rest \<Rightarrow> fault E OpRemove (filepath_Join dir n)) = ?r"
  proof -
    show "takeWhile (removable E dir) ?names' = []"
    proof (cases ?dw)
      case Nil
      then show ?thesis using n' by (simp del: dropWhile_eq_Nil_conv)
    next
      case (Cons x rest)
      then have nx: "\<not> removable E dir x" by (metis hd_dropWhile list.discI list.sel(1))
      have "x \<notin> set ?tw" using nx by (auto dest: set_takeWhileD)
      then show ?thesis using n' Cons nx by simp
    qed
    show "(case dropWhile (removable E dir) ?names' of [] \<Rightarrow> None
               | n # rest \<Rightarrow> fault E OpRemove (filepath_Join dir n)) = ?r"
    proof (cases ?dw)
      case Nil
      then show ?thesis using n' by (simp del: dropWhile_eq_Nil_conv)
    next
      case (Cons x rest)
      then have nx: "\<not> removable E dir x" by (metis hd_dropWhile list.discI list.sel(1))
      have "x \<notin> set ?tw" using nx by (auto dest: set_takeWhileD)
      then show ?thesis using n' Cons nx by simp
    qed
  qed
  have fs2: "fs (snd (cleanUp E dir ?w')) = ?fs'" and r2: "fst (cleanUp E dir ?w') = ?r"
    unfolding 2 using cleanUp_loop_result [of E dir ?names' "emit (EvOpen dir) ?w'"] tw' dw'
    by (simp_all add: fs1 survives_def)
  have emp: "?r = None \<Longrightarrow> ?names' = []"
  proof -
    assume "?r = None"
    then have "?dw = []"
    proof (cases ?dw)
      case (Cons x rest)
      then have "\<not> removable E dir x" by (metis hd_dropWhile list.discI list.sel(1))
      moreover assume "?r = None"
      ultimately show ?thesis using Cons by (simp add: removable_def)
    qed simp
    then show ?thesis using n' by (simp del: dropWhile_eq_Nil_conv)
  qed
  show ?thesis
    using fs1 r1 fs2 r2 emp dir' by simp
qed

theorem cleanUp_empties_and_is_idempotent_witness:
  "entries ''/certs'' (fs sample_world) = [''stale.pem'']
   \<and> fst (cleanUp sample_env ''/certs'' sample_world) = None
   \<and> entries ''/certs'' (fs (snd (cleanUp sample_env ''/certs'' sample_world))) = []
   \<and> map_of (fs (snd (cleanUp sample_env ''/certs'' sample_world))) ''/certs'' = Some Dir
   \<and> fst (cleanUp sample_env ''/certs'' (snd (cleanUp sample_env ''/certs'' sample_world)))
       = None"
proof -
  have before: "entries ''/certs'' (fs sample_world) = [''stale.pem'']"
    by code_simp
  have ok: "fst (cleanUp sample_env ''/certs'' sample_world) = None"
    by code_simp
  show ?thesis
    using cleanUp_empties_and_is_idempotent [of sample_env "''/certs''" sample_world] before ok
    by simp
qed

section \<open>The descriptors generateConfig writes\<close>

lemma events_since_append: "trace w' = trace w @ evs \<Longrightarrow> events_since w w' = evs"
  by (simp add: events_since_def)

lemma set_map_range: "set (map_range seed xs) = set xs"
proof (induction seed xs rule: map_range.induct)
  case (3 i seed x xs)
  let ?ys = "x # xs"
  let ?j = "i mod length ?ys"
  have j: "?j < length ?ys" by simp
  have "set ?ys = set (take ?j ?ys @ ?ys ! ?j # drop (Suc ?j) ?ys)"
    using id_take_nth_drop [OF j] by simp
  then show ?case using 3 by (simp add: Let_def del: take_Suc_Cons drop_Suc_Cons nth_Cons_Suc) 
qed simp_all

lemma generateConfig_events:
  "prefix (events_since w (snd (generateConfig E configDir certsDir namespace clusterName w)))
     (config_plan E configDir namespace clusterName)"
  "fst (generateConfig E configDir certsDir namespace clusterName w) = None \<Longrightarrow>
     events_since w (snd (generateConfig E configDir certsDir namespace clusterName w))
       = config_plan E configDir namespace clusterName"
proof -
  let ?G = "generateConfig E configDir certsDir namespace clusterName w"
  have cs: "config_stage E configDir certsDir namespace clusterName w = (Return (fst ?G), snd ?G)"
    by (simp add: config_stage_def split: prod.splits)
  from follows_config_stage [of E configDir certsDir namespace clusterName]
  obtain evs where e: "trace (snd ?G) = trace w @ evs"
     "prefix evs (config_plan E configDir namespace clusterName)"
     "fst ?G = None \<longrightarrow> evs = config_plan E configDir namespace clusterName"
    unfolding follows_def
    apply (elim allE [of _ w] exE conjE)
    by (simp add: cs)
  have "events_since w (snd ?G) = evs" using e(1) by (rule events_since_append)
  then show "prefix (events_since w (snd ?G)) (config_plan E configDir namespace clusterName)"
    and "fst ?G = None \<Longrightarrow> events_since w (snd ?G) = config_plan E configDir namespace clusterName"
    using e by simp_all
qed

lemma write_in_leaf_config_plan:
  "EvWrite p b \<in> set (leaf_config_plan E configDir namespace clusterName xs) \<longleftrightarrow>
     (\<exists>(k, v) \<in> set xs. p = configDir @ ''/'' @ v
        \<and> b = bytes_or_nil (json_Marshal_csr E (leafCSR k namespace clusterName)))"
  by (induction xs) (auto simp: leaf_config_plan_def file_events_def)

lemma write_in_config_plan:
  "EvWrite p b \<in> set (config_plan E configDir namespace clusterName) \<longleftrightarrow>
     (p = configDir @ ''/ca-config.json'' \<and> b = bytes_or_nil (json_Marshal_caconfig E caConfig))
     \<or> (p = configDir @ ''/ca-csr.json''
          \<and> b = bytes_or_nil (json_Marshal_csr E (caCSR namespace clusterName)))
     \<or> (\<exists>(k, v) \<in> set leafFiles. p = configDir @ ''/'' @ v
          \<and> b = bytes_or_nil (json_Marshal_csr E (leafCSR k namespace clusterName)))"
  by (auto simp: config_plan_def file_events_def write_in_leaf_config_plan set_map_range)

text \<open>
  Claim C1. For each leaf identity \<open>I\<close> among node, sgadmin, kibana and cerebro, the
  descriptor \<open>generateConfig\<close> builds for \<open>I\<close> has the four hosts \<open>localhost\<close>,
  \<open>I-clusterName\<close>, \<open>I-clusterName.namespace\<close> and
  \<open>I-clusterName.namespace.svc.cluster.local\<close>, in this order; whatever a run writes to
  \<open>configDir/req-I-csr.json\<close> is the encoding of that descriptor, and a run that returns
  nil has written it.
\<close>

theorem leaf_descriptor_hosts:
  assumes I: "I \<in> {''node'', ''sgadmin'', ''kibana'', ''cerebro''}"
  shows "Hosts (leafCSR I namespace clusterName)
           = [''localhost'',
              I @ ''-'' @ clusterName,
              I @ ''-'' @ clusterName @ ''.'' @ namespace,
              I @ ''-'' @ clusterName @ ''.'' @ namespace @ ''.svc.cluster.local'']
         \<and> (\<forall>b. EvWrite (configDir @ ''/req-'' @ I @ ''-csr.json'') b
                  \<in> set (events_since w
                        (snd (generateConfig E configDir certsDir namespace clusterName w)))
               \<longrightarrow> b = bytes_or_nil (json_Marshal_csr E (leafCSR I namespace clusterName)))
         \<and> (fst (generateConfig E configDir certsDir namespace clusterName w) = None
               \<longrightarrow> EvWrite (configDir @ ''/req-'' @ I @ ''-csr.json'')
                     (bytes_or_nil (json_Marshal_csr E (leafCSR I namespace clusterName)))
                   \<in> set (events_since w
                        (snd (generateConfig E configDir certsDir namespace clusterName w))))"
proof (intro conjI allI impI)
  show "Hosts (leafCSR I namespace clusterName)
           = [''localhost'',
              I @ ''-'' @ clusterName,
              I @ ''-'' @ clusterName @ ''.'' @ namespace,
              I @ ''-'' @ clusterName @ ''.'' @ namespace @ ''.svc.cluster.local'']"
    by (simp add: leafCSR_def)
next
  fix b
  let ?evs = "events_since w (snd (generateConfig E configDir certsDir namespace clusterName w))"
  assume "EvWrite (configDir @ ''/req-'' @ I @ ''-csr.json'') b \<in> set ?evs"
  then have "EvWrite (configDir @ ''/req-'' @ I @ ''-csr.json'') b
               \<in> set (config_plan E configDir namespace clusterName)"
    using generateConfig_events(1) [of w E configDir certsDir namespace clusterName]
    by (meson set_mono_prefix subsetD)
  then show "b = bytes_or_nil (json_Marshal_csr E (leafCSR I namespace clusterName))"
    using I unfolding write_in_config_plan by (auto simp: leafFiles_def)
next
  let ?evs = "events_since w (snd (generateConfig E configDir certsDir namespace clusterName w))"
  assume "fst (generateConfig E configDir certsDir namespace clusterName w) = None"
  then have "?evs = config_plan E configDir namespace clusterName"
    by (rule generateConfig_events(2))
  moreover have "(I, ''req-'' @ I @ ''-csr.json'') \<in> set leafFiles"
    using I by (auto simp: leafFiles_def)
  ultimately show "EvWrite (configDir @ ''/req-'' @ I @ ''-csr.json'')
                     (bytes_or_nil (json_Marshal_csr E (leafCSR I namespace clusterName))) \<in> set ?evs"
    by (simp only: write_in_config_plan) fastforce
qed

theorem leaf_descriptor_hosts_witness:
  "''kibana'' \<in> {''node'', ''sgadmin'', ''kibana'', ''cerebro''}
   \<and> Hosts (leafCSR ''kibana'' ''logging'' ''prod'')
       = [''localhost'', ''kibana-prod'', ''kibana-prod.logging'',
          ''kibana-prod.logging.svc.cluster.local'']
   \<and> fst (generateConfig sample_env ''/config'' ''/certs'' ''logging'' ''prod'' sample_world)
       = None
   \<and> EvWrite ''/config/req-kibana-csr.json''
         (bytes_or_nil (json_Marshal_csr sample_env (leafCSR ''kibana'' ''logging'' ''prod'')))
       \<in> set (events_since sample_world
             (snd (generateConfig sample_env ''/config'' ''/certs'' ''logging'' ''prod''
                     sample_world)))"
proof -
  have I: "''kibana'' \<in> {''node'', ''sgadmin'', ''kibana'', ''cerebro''}" by simp
  have ok: "fst (generateConfig sample_env ''/config'' ''/certs'' ''logging'' ''prod''
                   sample_world) = None"
    by code_simp
  show ?thesis
    using leaf_descriptor_hosts [OF I, of "''logging''" "''prod''" "''/config''" sample_world
            sample_env "''/certs''"] ok
    by simp
qed

text \<open>
  Claim C8. The signing policy has the usages signing, key encipherment, server auth and
  client auth and the expiry 8760h; the CA descriptor and every leaf descriptor ask for
  an rsa key of 2048 bits. Every write of a run of \<open>generateConfig\<close> is the encoding of
  that policy, to \<open>ca-config.json\<close>, or the encoding of a descriptor with that key; a run
  that returns nil has written the policy, the CA descriptor and the four leaf
  descriptors.
\<close>

theorem signing_policy_and_key_parameters:
  "Usages (Default (Signing caConfig))
     = [''signing'', ''key encipherment'', ''server auth'', ''client auth'']
   \<and> Expiry (Default (Signing caConfig)) = ''8760h''
   \<and> Key (caCSR namespace clusterName) = \<lparr>Algo = ''rsa'', Size = 2048\<rparr>
   \<and> (\<forall>k. Key (leafCSR k namespace clusterName) = \<lparr>Algo = ''rsa'', Size = 2048\<rparr>)
   \<and> (\<forall>p b. EvWrite p b
               \<in> set (events_since w
                     (snd (generateConfig E configDir certsDir namespace clusterName w)))
         \<longrightarrow> (p = configDir @ ''/ca-config.json''
                \<and> b = bytes_or_nil (json_Marshal_caconfig E caConfig))
             \<or> (\<exists>r. b = bytes_or_nil (json_Marshal_csr E r)
                   \<and> Key r = \<lparr>Algo = ''rsa'', Size = 2048\<rparr>))
   \<and> (fst (generateConfig E configDir certsDir namespace clusterName w) = None
         \<longrightarrow> EvWrite (configDir @ ''/ca-config.json'')
               (bytes_or_nil (json_Marshal_caconfig E caConfig))
             \<in> set (events_since w
                   (snd (generateConfig E configDir certsDir namespace clusterName w)))
           \<and> EvWrite (configDir @ ''/ca-csr.json'')
               (bytes_or_nil (json_Marshal_csr E (caCSR namespace clusterName)))
             \<in> set (events_since w
                   (snd (generateConfig E configDir certsDir namespace clusterName w)))
           \<and> (\<forall>(k, v) \<in> set leafFiles.
                 EvWrite (configDir @ ''/'' @ v)
                   (bytes_or_nil (json_Marshal_csr E (leafCSR k namespace clusterName)))
                 \<in> set (events_since w
                       (snd (generateConfig E configDir certsDir namespace clusterName w)))))"
proof -
  let ?evs = "events_since w (snd (generateConfig E configDir certsDir namespace clusterName w))"
  have keys: "Key (caCSR namespace clusterName) = \<lparr>Algo = ''rsa'', Size = 2048\<rparr>"
    "\<And>k. Key (leafCSR k namespace clusterName) = \<lparr>Algo = ''rsa'', Size = 2048\<rparr>"
    by (simp_all add: caCSR_def leafCSR_def)
  have policy: "Usages (Default (Signing caConfig))
       = [''signing'', ''key encipherment'', ''server auth'', ''client auth'']"
    "Expiry (Default (Signing caConfig)) = ''8760h''"
    by (simp_all add: caConfig_def)
  have written: "(p = configDir @ ''/ca-config.json''
                \<and> b = bytes_or_nil (json_Marshal_caconfig E caConfig))
             \<or> (\<exists>r. b = bytes_or_nil (json_Marshal_csr E r)
                   \<and> Key r = \<lparr>Algo = ''rsa'', Size = 2048\<rparr>)"
    if "EvWrite p b \<in> set ?evs" for p b
  proof -
    from that have "EvWrite p b \<in> set (config_plan E configDir namespace clusterName)"
      using generateConfig_events(1) [of w E configDir certsDir namespace clusterName]
      by (meson set_mono_prefix subsetD)
    then consider
        "p = configDir @ ''/ca-config.json''" "b = bytes_or_nil (json_Marshal_caconfig E caConfig)"
      | "b = bytes_or_nil (json_Marshal_csr E (caCSR namespace clusterName))"
      | k where "b = bytes_or_nil (json_Marshal_csr E (leafCSR k namespace clusterName))"
      unfolding write_in_config_plan by blast
    then show ?thesis
    proof cases
      case 1 then show ?thesis by simp
    next
      case 2 then show ?thesis using keys(1) by blast
    next
      case 3 then show ?thesis using keys(2) by blast
    qed
  qed
  have all: "EvWrite (configDir @ ''/ca-config.json'')
               (bytes_or_nil (json_Marshal_caconfig E caConfig)) \<in> set ?evs
           \<and> EvWrite (configDir @ ''/ca-csr.json'')
               (bytes_or_nil (json_Marshal_csr E (caCSR namespace clusterName))) \<in> set ?evs
           \<and> (\<forall>(k, v) \<in> set leafFiles.
                 EvWrite (configDir @ ''/'' @ v)
                   (bytes_or_nil (json_Marshal_csr E (leafCSR k namespace clusterName)))
                 \<in> set ?evs)"
    if "fst (generateConfig E configDir certsDir namespace clusterName w) = None"
  proof -
    have "?evs = config_plan E configDir namespace clusterName"
      using that by (rule generateConfig_events(2))
    then show ?thesis
      by (simp only: write_in_config_plan) fastforce
  qed
  show ?thesis
    using policy keys written all by blast
qed

theorem signing_policy_and_key_parameters_witness:
  "fst (generateConfig sample_env ''/config'' ''/certs'' ''logging'' ''prod'' sample_world) = None
   \<and> EvWrite ''/config/ca-config.json'' (bytes_or_nil (json_Marshal_caconfig sample_env caConfig))
       \<in> set (events_since sample_world
             (snd (generateConfig sample_env ''/config'' ''/certs'' ''logging'' ''prod''
                     sample_world)))
   \<and> Usages (Default (Signing caConfig))
       = [''signing'', ''key encipherment'', ''server auth'', ''client auth'']
   \<and> Expiry (Default (Signing caConfig)) = ''8760h''
   \<and> EvWrite ''/config/ca-csr.json''
         (bytes_or_nil (json_Marshal_csr sample_env (caCSR ''logging'' ''prod'')))
       \<in> set (events_since sample_world
             (snd (generateConfig sample_env ''/config'' ''/certs'' ''logging'' ''prod''
                     sample_world)))
   \<and> Key (caCSR ''logging'' ''prod'') = \<lparr>Algo = ''rsa'', Size = 2048\<rparr>"
proof -
  have ok: "fst (generateConfig sample_env ''/config'' ''/certs'' ''logging'' ''prod''
                   sample_world) = None"
    by code_simp
  show ?thesis
    using signing_policy_and_key_parameters
            [of "''logging''" "''prod''" sample_world sample_env "''/config''" "''/certs''"] ok
    by simp
qed

section \<open>The commands GenerateCerts runs\<close>

lemma precedes_prefix: "prefix xs ys \<Longrightarrow> precedes a b ys \<Longrightarrow> precedes a b xs"
proof (induction xs arbitrary: ys)
  case Nil
  show ?case by simp
next
  case (Cons x xs)
  from Cons.prems(1) obtain zs where ys: "ys = x # zs" and p: "prefix xs zs"
    by (cases ys) auto
  with Cons show ?case by auto
qed

lemma precedes_append:
  "b \<notin> set xs \<Longrightarrow> precedes a b (xs @ ys) \<longleftrightarrow> a \<in> set xs \<or> precedes a b ys"
  by (induction xs) auto

lemma precedes_iff:
  "precedes a b tr \<longleftrightarrow> (\<forall>xs ys. tr = xs @ b # ys \<longrightarrow> a \<in> set xs)"
proof (induction tr)
  case Nil
  show ?case by simp
next
  case (Cons x tr)
  show ?case
  proof (cases "x = b")
    case True
    then have "\<not> (\<forall>xs ys. x # tr = xs @ b # ys \<longrightarrow> a \<in> set xs)"
      by (metis append_Nil empty_iff list.set(1))
    then show ?thesis using True by simp
  next
    case False
    show ?thesis
    proof (cases "x = a")
      case True
      have "a \<in> set xs" if "x # tr = xs @ b # ys" for xs ys
        using that True False by (cases xs) auto
      then show ?thesis using True False by auto
    next
      case xa: False
      have "(\<forall>xs ys. x # tr = xs @ b # ys \<longrightarrow> a \<in> set xs)
              \<longleftrightarrow> (\<forall>xs ys. tr = xs @ b # ys \<longrightarrow> a \<in> set xs)"
      proof
        assume h: "\<forall>xs ys. x # tr = xs @ b # ys \<longrightarrow> a \<in> set xs"
        show "\<forall>xs ys. tr = xs @ b # ys \<longrightarrow> a \<in> set xs"
        proof (intro allI impI)
          fix xs ys assume "tr = xs @ b # ys"
          then have "x # tr = (x # xs) @ b # ys" by simp
          with h have "a \<in> set (x # xs)" by blast
          then show "a \<in> set xs" using xa by simp
        qed
      next
        assume h: "\<forall>xs ys. tr = xs @ b # ys \<longrightarrow> a \<in> set xs"
        show "\<forall>xs ys. x # tr = xs @ b # ys \<longrightarrow> a \<in> set xs"
        proof (intro allI impI)
          fix xs ys assume e: "x # tr = xs @ b # ys"
          then obtain xs' where "xs = x # xs'" "tr = xs' @ b # ys"
            using False by (cases xs) auto
          with h show "a \<in> set xs" by auto
        qed
      qed
      then show ?thesis using Cons False xa by simp
    qed
  qed
qed

lemma exec_plan_explicit:
  "exec_plan configDir certsDir =
     [EvExec ''cfssl'' [''gencert'', ''-initca'', configDir @ ''/ca-csr.json''],
      EvExec ''cfssljson'' [''-bare'', certsDir @ ''/ca''],
      ev (cmd1 configDir certsDir ''node''), ev (cmd2 certsDir ''node''),
      ev (cmd1 configDir certsDir ''kibana''), ev (cmd2 certsDir ''kibana''),
      ev (cmd1 configDir certsDir ''cerebro''), ev (cmd2 certsDir ''cerebro''),
      ev (cmd1 configDir certsDir ''sgadmin''), ev (cmd2 certsDir ''sgadmin''),
      ev (cmdConvertNodePkcs8 certsDir), ev (cmdConvertSgadmin certsDir),
      ev (cmdConvertNode certsDir), ev (cmdCAJKS certsDir),
      ev (cmdSgadminJKS certsDir), ev (cmdNodeJKS certsDir)]"
  by (simp add: exec_plan_def leaf_plan_def leaves_def conversions_def ev_def cmdCA1_def
        cmdCA2_def exec_Command_def)

lemma ev_cmd1:
  "ev (cmd1 configDir certsDir name) =
     EvExec ''cfssl''
       [''gencert'', ''-ca'', certsDir @ ''/ca.pem'', ''-ca-key'', certsDir @ ''/ca-key.pem'',
        ''-config'', configDir @ ''/ca-config.json'', ''-profile=server'',
        configDir @ ''/req-'' @ name @ ''-csr.json'']"
  by (simp add: ev_def cmd1_def exec_Command_def)

lemma ev_cmd2:
  "ev (cmd2 certsDir name) = EvExec ''cfssljson'' [''-bare'', certsDir @ ''/'' @ name]"
  by (simp add: ev_def cmd2_def exec_Command_def)

lemma ev_conversions:
  "ev (cmdConvertNodePkcs8 certsDir) =
     EvExec ''openssl''
       [''pkcs8'', ''-topk8'', ''-in'', certsDir @ ''/node-key.pem'',
        ''-out'', certsDir @ ''/node-key.pkcs8.pem'', ''-nocrypt'']"
  "ev (cmdConvertSgadmin certsDir) =
     EvExec ''openssl''
       [''pkcs12'', ''-export'', ''-inkey'', certsDir @ ''/sgadmin-key.pem'',
        ''-in'', certsDir @ ''/sgadmin.pem'', ''-out'', certsDir @ ''/sgadmin.pkcs12'',
        ''-password'', ''pass:changeit'', ''-certfile'', certsDir @ ''/ca.pem'']"
  "ev (cmdConvertNode certsDir) =
     EvExec ''openssl''
       [''pkcs12'', ''-export'', ''-inkey'', certsDir @ ''/node-key.pem'',
        ''-in'', certsDir @ ''/node.pem'', ''-out'', certsDir @ ''/node.pkcs12'',
        ''-password'', ''pass:changeit'', ''-certfile'', certsDir @ ''/ca.pem'']"
  "ev (cmdCAJKS certsDir) =
     EvExec ''keytool''
       [''-import'', ''-file'', certsDir @ ''/ca.pem'', ''-alias'', ''root-ca'',
        ''-keystore'', certsDir @ ''/truststore.jks'', ''-storepass'', ''changeit'',
        ''-srcstoretype'', ''pkcs12'', ''-noprompt'']"
  "ev (cmdSgadminJKS certsDir) =
     EvExec ''keytool''
       [''-importkeystore'', ''-srckeystore'', certsDir @ ''/sgadmin.pkcs12'',
        ''-srcalias'', ''1'', ''-destkeystore'', certsDir @ ''/sgadmin-keystore.jks'',
        ''-storepass'', ''changeit'', ''-srcstoretype'', ''pkcs12'',
        ''-srcstorepass'', ''changeit'', ''-destalias'', ''elasticsearch-admin'']"
  "ev (cmdNodeJKS certsDir) =
     EvExec ''keytool''
       [''-importkeystore'', ''-srckeystore'', certsDir @ ''/node.pkcs12'',
        ''-srcalias'', ''1'', ''-destkeystore'', certsDir @ ''/node-keystore.jks'',
        ''-storepass'', ''changeit'', ''-srcstoretype'', ''pkcs12'',
        ''-srcstorepass'', ''changeit'', ''-destalias'', ''elasticsearch-node'']"
  by (simp_all add: ev_def cmdConvertNodePkcs8_def cmdConvertSgadmin_def cmdConvertNode_def
        cmdCAJKS_def cmdSgadminJKS_def cmdNodeJKS_def exec_Command_def)

lemma ev_ca:
  "ev (cmdCA1 configDir) = EvExec ''cfssl'' [''gencert'', ''-initca'', configDir @ ''/ca-csr.json'']"
  "ev (cmdCA2 certsDir) = EvExec ''cfssljson'' [''-bare'', certsDir @ ''/ca'']"
  by (simp_all add: ev_def cmdCA1_def cmdCA2_def exec_Command_def)

lemmas ev_simps = ev_ca ev_cmd1 ev_cmd2 ev_conversions

lemma order_ca_leaf:
  assumes n: "n \<in> set leaves"
  shows "precedes (ev (cmdCA1 configDir)) (ev (cmd1 configDir certsDir n))
           (exec_plan configDir certsDir)"
    and "precedes (ev (cmdCA2 certsDir)) (ev (cmd1 configDir certsDir n))
           (exec_plan configDir certsDir)"
    and "precedes (ev (cmd1 configDir certsDir n)) (ev (cmd2 certsDir n))
           (exec_plan configDir certsDir)"
proof -
  from n consider "n = ''node''" | "n = ''kibana''" | "n = ''cerebro''" | "n = ''sgadmin''"
    by (auto simp: leaves_def)
  then have "precedes (ev (cmdCA1 configDir)) (ev (cmd1 configDir certsDir n))
           (exec_plan configDir certsDir)
     \<and> precedes (ev (cmdCA2 certsDir)) (ev (cmd1 configDir certsDir n))
           (exec_plan configDir certsDir)
     \<and> precedes (ev (cmd1 configDir certsDir n)) (ev (cmd2 certsDir n))
           (exec_plan configDir certsDir)"
    by cases (simp_all add: exec_plan_explicit ev_simps)
  then show "precedes (ev (cmdCA1 configDir)) (ev (cmd1 configDir certsDir n))
           (exec_plan configDir certsDir)"
    and "precedes (ev (cmdCA2 certsDir)) (ev (cmd1 configDir certsDir n))
           (exec_plan configDir certsDir)"
    and "precedes (ev (cmd1 configDir certsDir n)) (ev (cmd2 certsDir n))
           (exec_plan configDir certsDir)"
    by simp_all
qed

lemma order_leaf_conv:
  assumes n: "n \<in> set leaves" and c: "c \<in> set (conversions certsDir)"
  shows "precedes (ev (cmd2 certsDir n)) (ev c) (exec_plan configDir certsDir)"
    and "precedes (ev (cmdCA2 certsDir)) (ev c) (exec_plan configDir certsDir)"
proof -
  let ?issue = "[ev (cmdCA1 configDir), ev (cmdCA2 certsDir)] @ leaf_plan configDir certsDir leaves"
  have pl: "exec_plan configDir certsDir = ?issue @ map ev (conversions certsDir)"
    by (simp add: exec_plan_def)
  have notin: "ev c \<notin> set ?issue"
    using c by (auto simp: conversions_def leaf_plan_def leaves_def ev_simps)
  have "ev (cmd2 certsDir n) \<in> set ?issue"
    using n by (auto simp: leaf_plan_def)
  then show "precedes (ev (cmd2 certsDir n)) (ev c) (exec_plan configDir certsDir)"
    unfolding pl using notin by (simp only: precedes_append simp_thms)
  have "ev (cmdCA2 certsDir) \<in> set ?issue" by simp
  then show "precedes (ev (cmdCA2 certsDir)) (ev c) (exec_plan configDir certsDir)"
    unfolding pl using notin by (simp only: precedes_append simp_thms)
qed

lemma invocations_append [simp]:
  "invocations (xs @ ys) = invocations xs @ invocations ys"
  by (induction xs rule: invocations.induct) simp_all

lemma invocations_RemoveAll [simp]: "invocations (map EvRemoveAll ps) = []"
  by (induction ps) simp_all

lemma invocations_prefix: "prefix xs ys \<Longrightarrow> prefix (invocations xs) (invocations ys)"
  by (auto simp: prefix_def)

lemma invocations_leaf_config_plan [simp]:
  "invocations (leaf_config_plan E configDir namespace clusterName xs) = []"
  by (induction xs) (auto simp: leaf_config_plan_def file_events_def)

lemma invocations_config_plan [simp]:
  "invocations (config_plan E configDir namespace clusterName) = []"
  by (simp add: config_plan_def file_events_def)

lemma in_invocations: "(p, a) \<in> set (invocations es) \<longleftrightarrow> EvExec p a \<in> set es"
  by (induction es rule: invocations.induct) auto

lemma GenerateCerts_events:
  "\<exists>ps1 ps2 evs.
     events_since w (snd (GenerateCerts E configDir certsDir namespace clusterName w))
       = EvOpen certsDir # map EvRemoveAll ps1 @ EvOpen configDir # map EvRemoveAll ps2 @ evs
     \<and> prefix evs (config_plan E configDir namespace clusterName @ exec_plan configDir certsDir)
     \<and> (fst (GenerateCerts E configDir certsDir namespace clusterName w) = Return None
           \<longrightarrow> evs = config_plan E configDir namespace clusterName @ exec_plan configDir certsDir)"
proof -
  from GenerateCerts_shape [of E configDir certsDir namespace clusterName w]
  obtain ps1 ps2 evs where
    t: "trace (snd (GenerateCerts E configDir certsDir namespace clusterName w))
       = trace w @ EvOpen certsDir # map EvRemoveAll ps1 @ EvOpen configDir # map EvRemoveAll ps2
           @ evs"
    and p: "prefix evs (config_plan E configDir namespace clusterName @ exec_plan configDir certsDir)"
    and s: "fst (GenerateCerts E configDir certsDir namespace clusterName w) = Return None
           \<longrightarrow> evs = config_plan E configDir namespace clusterName @ exec_plan configDir certsDir"
    by (elim exE conjE)
  show ?thesis
    apply (rule exI [of _ ps1], rule exI [of _ ps2], rule exI [of _ evs])
    using events_since_append [OF t] p s by simp
qed

lemma GenerateCerts_invocations:
  "prefix (invocations (events_since w
             (snd (GenerateCerts E configDir certsDir namespace clusterName w))))
     (invocations (exec_plan configDir certsDir))"
  "fst (GenerateCerts E configDir certsDir namespace clusterName w) = Return None \<Longrightarrow>
     invocations (events_since w
        (snd (GenerateCerts E configDir certsDir namespace clusterName w)))
       = invocations (exec_plan configDir certsDir)"
proof -
  from GenerateCerts_events [of w E configDir certsDir namespace clusterName]
  obtain ps1 ps2 evs where
    t: "events_since w (snd (GenerateCerts E configDir certsDir namespace clusterName w))
       = EvOpen certsDir # map EvRemoveAll ps1 @ EvOpen configDir # map EvRemoveAll ps2 @ evs"
    and p: "prefix evs (config_plan E configDir namespace clusterName @ exec_plan configDir certsDir)"
    and s: "fst (GenerateCerts E configDir certsDir namespace clusterName w) = Return None
           \<longrightarrow> evs = config_plan E configDir namespace clusterName @ exec_plan configDir certsDir"
    by (elim exE conjE)
  have i: "invocations (events_since w
             (snd (GenerateCerts E configDir certsDir namespace clusterName w)))
           = invocations evs"
    by (simp add: t)
  show "prefix (invocations (events_since w
             (snd (GenerateCerts E configDir certsDir namespace clusterName w))))
     (invocations (exec_plan configDir certsDir))"
    using invocations_prefix [OF p] by (simp add: i)
  show "invocations (events_since w
        (snd (GenerateCerts E configDir certsDir namespace clusterName w)))
       = invocations (exec_plan configDir certsDir)"
    if "fst (GenerateCerts E configDir certsDir namespace clusterName w) = Return None"
    using that s by (simp add: i)
qed

lemma andThen_ok: "fst (f w) = Return None \<Longrightarrow> andThen f g w = g (snd (f w))"
  by (cases "f w") (simp add: andThen_def)

lemma output_stage_ok:
  assumes "\<And>p a i f. \<exists>out f'. spawn E p a i f = Exited 0 out f'" and "fresh c"
  shows "fst (output_stage E c w) = Return None"
proof -
  obtain out f' where "spawn E (Path c) (Args c) (Stdin c) (fs w) = Exited 0 out f'"
    using assms(1) by blast
  then show ?thesis using assms(2) by (simp add: output_stage_def cmd_Output_def fresh_def)
qed

lemma pipe_stage_ok:
  assumes sp: "\<And>p a i f. \<exists>out f'. spawn E p a i f = Exited 0 out f'"
    and pf: "pipe_fault E = None" and a: "fresh a" and b: "fresh b"
  shows "fst (pipe_stage E a b w) = Return None"
proof -
  obtain err out w' where st: "cmd_Start E (a\<lparr>StdoutSet := True\<rparr>) w = ((err, out), w')"
    by (metis prod.exhaust)
  obtain o2 f2 where "spawn E (Path b) (Args b) out (fs w') = Exited 0 o2 f2"
    using sp by blast
  then have "snd (fst (cmd_Output E (b\<lparr>Stdin := out\<rparr>) w')) = None"
    using b by (simp add: cmd_Output_def fresh_def)
  then show ?thesis
    using pf st by (auto simp: pipe_stage_def pipeCommands_two [OF a b] split: prod.splits option.splits)
qed

lemma leaf_loop_ok:
  assumes sp: "\<And>p a i f. \<exists>out f'. spawn E p a i f = Exited 0 out f'"
    and pf: "pipe_fault E = None"
  shows "fst (leaf_loop E configDir certsDir ns w) = Return None"
proof (induction ns arbitrary: w)
  case Nil
  show ?case by simp
next
  case (Cons n ns)
  have "fst (pipe_stage E (cmd1 configDir certsDir n) (cmd2 certsDir n) w) = Return None"
    by (rule pipe_stage_ok [OF sp pf]) (simp_all add: cmd1_def cmd2_def)
  then show ?case using Cons.IH by (simp add: andThen_ok)
qed

lemma GenerateCerts_succeeds:
  assumes sp: "\<And>p a i f. \<exists>out f'. spawn E p a i f = Exited 0 out f'"
    and pf: "pipe_fault E = None"
    and cfg: "fst (generateConfig E configDir certsDir namespace clusterName
                (snd (cleanUp E configDir (snd (cleanUp E certsDir w))))) = None"
  shows "fst (GenerateCerts E configDir certsDir namespace clusterName w) = Return None"
proof -
  have c: "fst (config_stage E configDir certsDir namespace clusterName
             (snd (cleanUp E configDir (snd (cleanUp E certsDir w))))) = Return None"
    using cfg by (auto simp: config_stage_def split: prod.splits)
  have p: "\<And>w. fst (pipe_stage E (cmdCA1 configDir) (cmdCA2 certsDir) w) = Return None"
    by (rule pipe_stage_ok [OF sp pf]) (simp_all add: cmdCA1_def cmdCA2_def)
  have l: "\<And>ns w. fst (leaf_loop E configDir certsDir ns w) = Return None"
    by (rule leaf_loop_ok [OF sp pf])
  have o: "\<And>w. fst (output_stage E (cmdConvertNodePkcs8 certsDir) w) = Return None"
    "\<And>w. fst (output_stage E (cmdConvertSgadmin certsDir) w) = Return None"
    "\<And>w. fst (output_stage E (cmdConvertNode certsDir) w) = Return None"
    "\<And>w. fst (output_stage E (cmdCAJKS certsDir) w) = Return None"
    "\<And>w. fst (output_stage E (cmdSgadminJKS certsDir) w) = Return None"
    "\<And>w. fst (output_stage E (cmdNodeJKS certsDir) w) = Return None"
    by (rule output_stage_ok [OF sp],
        simp add: cmdConvertNodePkcs8_def cmdConvertSgadmin_def cmdConvertNode_def
          cmdCAJKS_def cmdSgadminJKS_def cmdNodeJKS_def)+
  show ?thesis
    by (simp add: GenerateCerts_def Let_def andThen_ok c p l o del: leaf_loop.simps)
qed

lemma sample_spawn_ok: "\<exists>out f'. spawn sample_env p a i f = Exited 0 out f'"
  by (simp add: sample_env_def sample_spawn_def)

lemma sample_run_ok:
  "fst (GenerateCerts sample_env ''/config'' ''/certs'' ''logging'' ''prod'' sample_world)
     = Return None"
proof (rule GenerateCerts_succeeds)
  show "\<exists>out f'. spawn sample_env p a i f = Exited 0 out f'" for p a i f
    by (rule sample_spawn_ok)
  show "pipe_fault sample_env = None" by (simp add: sample_env_def)
  show "fst (generateConfig sample_env ''/config'' ''/certs'' ''logging'' ''prod''
          (snd (cleanUp sample_env ''/config'' (snd (cleanUp sample_env ''/certs'' sample_world)))))
        = None"
    by code_simp
qed

lemma no_exec_in_config_plan:
  "EvExec p a \<notin> set (config_plan E configDir namespace clusterName)"
  using in_invocations [of p a "config_plan E configDir namespace clusterName"] by simp

lemma order_lifts:
  assumes t: "tr = EvOpen certsDir # map EvRemoveAll ps1 @ EvOpen configDir # map EvRemoveAll ps2
                @ evs"
    and p: "prefix evs (config_plan E configDir namespace clusterName @ exec_plan configDir certsDir)"
  shows "precedes a (EvExec q args) (exec_plan configDir certsDir)
           \<Longrightarrow> precedes a (EvExec q args) tr"
    and "a \<in> set (config_plan E configDir namespace clusterName)
           \<Longrightarrow> precedes a (EvExec q args) tr"
    and "precedes (EvOpen certsDir) (EvExec q args) tr"
    and "precedes (EvOpen configDir) (EvExec q args) tr"
proof -
  let ?pre = "EvOpen certsDir # map EvRemoveAll ps1 @ EvOpen configDir # map EvRemoveAll ps2"
  let ?plan = "config_plan E configDir namespace clusterName @ exec_plan configDir certsDir"
  have tr: "tr = ?pre @ evs" using t by simp
  have b: "EvExec q args \<notin> set ?pre" by auto
  have lift: "precedes a (EvExec q args) tr" if "precedes a (EvExec q args) ?plan" for a
  proof -
    have "precedes a (EvExec q args) evs" using p that by (rule precedes_prefix)
    then show ?thesis unfolding tr using b by (simp only: precedes_append simp_thms)
  qed
  show "precedes a (EvExec q args) tr" if "precedes a (EvExec q args) (exec_plan configDir certsDir)"
    using that by (intro lift) (simp add: precedes_append no_exec_in_config_plan)
  show "precedes a (EvExec q args) tr" if "a \<in> set (config_plan E configDir namespace clusterName)"
    using that by (intro lift) (simp add: precedes_append no_exec_in_config_plan)
  have "EvOpen certsDir \<in> set ?pre" by simp
  then show "precedes (EvOpen certsDir) (EvExec q args) tr"
    unfolding tr using b by (simp only: precedes_append simp_thms)
  have "EvOpen configDir \<in> set ?pre" by simp
  then show "precedes (EvOpen configDir) (EvExec q args) tr"
    unfolding tr using b by (simp only: precedes_append simp_thms)
qed

text \<open>
  Claim C6. In the events of every run of \<open>GenerateCerts\<close>: both commands of the CA
  pipeline are called before the signing command of any leaf, the signing command of a
  leaf before the command that writes its certificate and key, and that command, for
  every leaf, before every format conversion; the CA pipeline comes before every
  conversion; a run that returns nil has called all six conversions, so whatever is
  sequenced after it (the assembly of the bundle) comes after them. The opening of both
  working directories for cleanup and the writing of every descriptor come before the
  first command of the CA pipeline.
\<close>

theorem stage_order:
  "let tr = events_since w (snd (GenerateCerts E configDir certsDir namespace clusterName w)) in
     (\<forall>n \<in> set leaves.
        precedes (ev (cmdCA1 configDir)) (ev (cmd1 configDir certsDir n)) tr
        \<and> precedes (ev (cmdCA2 certsDir)) (ev (cmd1 configDir certsDir n)) tr
        \<and> precedes (ev (cmd1 configDir certsDir n)) (ev (cmd2 certsDir n)) tr
        \<and> (\<forall>c \<in> set (conversions certsDir). precedes (ev (cmd2 certsDir n)) (ev c) tr))
     \<and> (\<forall>c \<in> set (conversions certsDir). precedes (ev (cmdCA2 certsDir)) (ev c) tr)
     \<and> (fst (GenerateCerts E configDir certsDir namespace clusterName w) = Return None
          \<longrightarrow> (\<forall>c \<in> set (conversions certsDir). ev c \<in> set tr))
     \<and> precedes (EvOpen certsDir) (ev (cmdCA1 configDir)) tr
     \<and> precedes (EvOpen configDir) (ev (cmdCA1 configDir)) tr
     \<and> precedes (EvWrite (configDir @ ''/ca-config.json'')
                   (bytes_or_nil (json_Marshal_caconfig E caConfig)))
          (ev (cmdCA1 configDir)) tr
     \<and> precedes (EvWrite (configDir @ ''/ca-csr.json'')
                   (bytes_or_nil (json_Marshal_csr E (caCSR namespace clusterName))))
          (ev (cmdCA1 configDir)) tr
     \<and> (\<forall>(k, v) \<in> set leafFiles.
          precedes (EvWrite (configDir @ ''/'' @ v)
                      (bytes_or_nil (json_Marshal_csr E (leafCSR k namespace clusterName))))
            (ev (cmdCA1 configDir)) tr)"
proof -
  define tr where
    "tr = events_since w (snd (GenerateCerts E configDir certsDir namespace clusterName w))"
  from GenerateCerts_events [of w E configDir certsDir namespace clusterName]
  obtain ps1 ps2 evs where
    t: "tr = EvOpen certsDir # map EvRemoveAll ps1 @ EvOpen configDir # map EvRemoveAll ps2 @ evs"
    and p: "prefix evs (config_plan E configDir namespace clusterName @ exec_plan configDir certsDir)"
    and s: "fst (GenerateCerts E configDir certsDir namespace clusterName w) = Return None
           \<longrightarrow> evs = config_plan E configDir namespace clusterName @ exec_plan configDir certsDir"
    unfolding tr_def by (elim exE conjE)
  note lift = order_lifts [OF t p]
  have leaf: "precedes (ev (cmdCA1 configDir)) (ev (cmd1 configDir certsDir n)) tr
        \<and> precedes (ev (cmdCA2 certsDir)) (ev (cmd1 configDir certsDir n)) tr
        \<and> precedes (ev (cmd1 configDir certsDir n)) (ev (cmd2 certsDir n)) tr
        \<and> (\<forall>c \<in> set (conversions certsDir). precedes (ev (cmd2 certsDir n)) (ev c) tr)"
    if n: "n \<in> set leaves" for n
    using order_ca_leaf [OF n, where configDir = configDir and certsDir = certsDir]
      order_leaf_conv(1) [OF n, where configDir = configDir and certsDir = certsDir]
      lift(1)
    unfolding ev_def by blast
  have conv: "\<forall>c \<in> set (conversions certsDir). precedes (ev (cmdCA2 certsDir)) (ev c) tr"
    using order_leaf_conv(2) [where n = "''node''" and configDir = configDir and certsDir = certsDir]
      lift(1)
    unfolding ev_def by (simp add: leaves_def)
  have complete: "\<forall>c \<in> set (conversions certsDir). ev c \<in> set tr"
    if "fst (GenerateCerts E configDir certsDir namespace clusterName w) = Return None"
  proof -
    have "evs = config_plan E configDir namespace clusterName @ exec_plan configDir certsDir"
      using s that by simp
    then show ?thesis by (simp add: t exec_plan_def)
  qed
  have cfg: "precedes a (ev (cmdCA1 configDir)) tr"
    if "a \<in> set (config_plan E configDir namespace clusterName)" for a
    using lift(2) [OF that] unfolding ev_def by simp
  have in_plan: "EvWrite (configDir @ ''/ca-config.json'')
                   (bytes_or_nil (json_Marshal_caconfig E caConfig))
                 \<in> set (config_plan E configDir namespace clusterName)"
     "EvWrite (configDir @ ''/ca-csr.json'')
                   (bytes_or_nil (json_Marshal_csr E (caCSR namespace clusterName)))
                 \<in> set (config_plan E configDir namespace clusterName)"
     "\<And>k v. (k, v) \<in> set leafFiles \<Longrightarrow>
          EvWrite (configDir @ ''/'' @ v)
                      (bytes_or_nil (json_Marshal_csr E (leafCSR k namespace clusterName)))
                 \<in> set (config_plan E configDir namespace clusterName)"
    by (simp only: write_in_config_plan, fastforce)+
  have writes: "precedes (EvWrite (configDir @ ''/ca-config.json'')
                   (bytes_or_nil (json_Marshal_caconfig E caConfig)))
          (ev (cmdCA1 configDir)) tr"
     "precedes (EvWrite (configDir @ ''/ca-csr.json'')
                   (bytes_or_nil (json_Marshal_csr E (caCSR namespace clusterName))))
          (ev (cmdCA1 configDir)) tr"
     "\<forall>(k, v) \<in> set leafFiles.
          precedes (EvWrite (configDir @ ''/'' @ v)
                      (bytes_or_nil (json_Marshal_csr E (leafCSR k namespace clusterName))))
            (ev (cmdCA1 configDir)) tr"
    using in_plan cfg by blast+
  have opens: "precedes (EvOpen certsDir) (ev (cmdCA1 configDir)) tr"
    "precedes (EvOpen configDir) (ev (cmdCA1 configDir)) tr"
    using lift(3,4) unfolding ev_def by simp_all
  show ?thesis
    unfolding Let_def tr_def [symmetric]
    using leaf conv complete opens writes by blast
qed

theorem stage_order_witness:
  "fst (GenerateCerts sample_env ''/config'' ''/certs'' ''logging'' ''prod'' sample_world)
     = Return None
   \<and> precedes (ev (cmdCA2 ''/certs'')) (ev (cmd1 ''/config'' ''/certs'' ''kibana''))
        (events_since sample_world
           (snd (GenerateCerts sample_env ''/config'' ''/certs'' ''logging'' ''prod''
                   sample_world)))
   \<and> precedes (ev (cmd2 ''/certs'' ''sgadmin'')) (ev (cmdConvertNodePkcs8 ''/certs''))
        (events_since sample_world
           (snd (GenerateCerts sample_env ''/config'' ''/certs'' ''logging'' ''prod''
                   sample_world)))
   \<and> ev (cmdNodeJKS ''/certs'')
        \<in> set (events_since sample_world
           (snd (GenerateCerts sample_env ''/config'' ''/certs'' ''logging'' ''prod''
                   sample_world)))
   \<and> precedes (EvOpen ''/certs'') (ev (cmdCA1 ''/config''))
        (events_since sample_world
           (snd (GenerateCerts sample_env ''/config'' ''/certs'' ''logging'' ''prod''
                   sample_world)))"
proof -
  have ok: "fst (GenerateCerts sample_env ''/config'' ''/certs'' ''logging'' ''prod''
                   sample_world) = Return None"
    by (rule sample_run_ok)
  have n: "''kibana'' \<in> set leaves" "''sgadmin'' \<in> set leaves"
    by (simp_all add: leaves_def)
  have c: "cmdConvertNodePkcs8 ''/certs'' \<in> set (conversions ''/certs'')"
    "cmdNodeJKS ''/certs'' \<in> set (conversions ''/certs'')"
    by (simp_all add: conversions_def)
  show ?thesis
    using stage_order [of sample_world sample_env "''/config''" "''/certs''" "''logging''"
            "''prod''"] ok n c
    unfolding Let_def by blast
qed

lemma path_arg_neq [simp]:
  "CHR ''/'' \<notin> set f \<Longrightarrow> (d @ CHR ''/'' # s = f) = False"
  "CHR ''/'' \<notin> set f \<Longrightarrow> (f = d @ CHR ''/'' # s) = False"
  by auto

lemma invocations_exec_plan:
  "invocations (exec_plan configDir certsDir) =
     [(''cfssl'', [''gencert'', ''-initca'', configDir @ ''/ca-csr.json'']),
      (''cfssljson'', [''-bare'', certsDir @ ''/ca'']),
      (''cfssl'', Args (cmd1 configDir certsDir ''node'')),
      (''cfssljson'', [''-bare'', certsDir @ ''/node'']),
      (''cfssl'', Args (cmd1 configDir certsDir ''kibana'')),
      (''cfssljson'', [''-bare'', certsDir @ ''/kibana'']),
      (''cfssl'', Args (cmd1 configDir certsDir ''cerebro'')),
      (''cfssljson'', [''-bare'', certsDir @ ''/cerebro'']),
      (''cfssl'', Args (cmd1 configDir certsDir ''sgadmin'')),
      (''cfssljson'', [''-bare'', certsDir @ ''/sgadmin'']),
      (''openssl'', Args (cmdConvertNodePkcs8 certsDir)),
      (''openssl'', Args (cmdConvertSgadmin certsDir)),
      (''openssl'', Args (cmdConvertNode certsDir)),
      (''keytool'', Args (cmdCAJKS certsDir)),
      (''keytool'', Args (cmdSgadminJKS certsDir)),
      (''keytool'', Args (cmdNodeJKS certsDir))]"
  by (simp add: exec_plan_explicit ev_def cmd1_def cmd2_def cmdConvertNodePkcs8_def
        cmdConvertSgadmin_def cmdConvertNode_def cmdCAJKS_def cmdSgadminJKS_def cmdNodeJKS_def
        exec_Command_def)

lemma passwords_of_commands:
  "passwords [''gencert'', ''-initca'', configDir @ ''/ca-csr.json''] = []"
  "passwords [''-bare'', certsDir @ ''/'' @ n] = []"
  "passwords (Args (cmd1 configDir certsDir n)) = []"
  "passwords (Args (cmdConvertNodePkcs8 certsDir)) = []"
  "passwords (Args (cmdConvertSgadmin certsDir)) = [''pass:changeit'']"
  "passwords (Args (cmdConvertNode certsDir)) = [''pass:changeit'']"
  "passwords (Args (cmdCAJKS certsDir)) = [''changeit'']"
  "passwords (Args (cmdSgadminJKS certsDir)) = [''changeit'', ''changeit'']"
  "passwords (Args (cmdNodeJKS certsDir)) = [''changeit'', ''changeit'']"
  by (simp_all add: passwords_def password_flags_def cmd1_def cmdConvertNodePkcs8_def
        cmdConvertSgadmin_def cmdConvertNode_def cmdCAJKS_def cmdSgadminJKS_def cmdNodeJKS_def
        exec_Command_def)

lemma protected_flags:
  "flag_values ''-password'' (Args (cmdConvertSgadmin certsDir)) = [''pass:changeit'']"
  "flag_values ''-password'' (Args (cmdConvertNode certsDir)) = [''pass:changeit'']"
  "flag_values ''-storepass'' (Args (cmdCAJKS certsDir)) = [''changeit'']"
  "flag_values ''-storepass'' (Args (cmdSgadminJKS certsDir)) = [''changeit'']"
  "flag_values ''-storepass'' (Args (cmdNodeJKS certsDir)) = [''changeit'']"
  "flag_values ''-srcstorepass'' (Args (cmdCAJKS certsDir)) = []"
  "flag_values ''-srcstorepass'' (Args (cmdSgadminJKS certsDir)) = [''changeit'']"
  "flag_values ''-srcstorepass'' (Args (cmdNodeJKS certsDir)) = [''changeit'']"
  by (simp_all add: cmdConvertSgadmin_def cmdConvertNode_def cmdCAJKS_def cmdSgadminJKS_def
        cmdNodeJKS_def exec_Command_def)

lemma subcommands:
  "is_tool p s (q, Args (cmd1 configDir certsDir n)) \<longleftrightarrow> q = p \<and> s = ''gencert''"
  "is_tool p s (q, Args (cmdConvertNodePkcs8 certsDir)) \<longleftrightarrow> q = p \<and> s = ''pkcs8''"
  "is_tool p s (q, Args (cmdConvertSgadmin certsDir)) \<longleftrightarrow> q = p \<and> s = ''pkcs12''"
  "is_tool p s (q, Args (cmdConvertNode certsDir)) \<longleftrightarrow> q = p \<and> s = ''pkcs12''"
  "is_tool p s (q, Args (cmdCAJKS certsDir)) \<longleftrightarrow> q = p \<and> s = ''-import''"
  "is_tool p s (q, Args (cmdSgadminJKS certsDir)) \<longleftrightarrow> q = p \<and> s = ''-importkeystore''"
  "is_tool p s (q, Args (cmdNodeJKS certsDir)) \<longleftrightarrow> q = p \<and> s = ''-importkeystore''"
  "is_tool p s (q, a # rest) \<longleftrightarrow> q = p \<and> s = a"
  by (auto simp: is_tool_def cmd1_def cmdConvertNodePkcs8_def cmdConvertSgadmin_def
        cmdConvertNode_def cmdCAJKS_def cmdSgadminJKS_def cmdNodeJKS_def exec_Command_def)

lemma planned_passwords:
  assumes "c \<in> set (invocations (exec_plan configDir certsDir))"
  shows "set (passwords (snd c)) \<subseteq> {''pass:changeit'', ''changeit''}
         \<and> (is_tool ''openssl'' ''pkcs12'' c
              \<longrightarrow> flag_values ''-password'' (snd c) = [''pass:changeit''])
         \<and> (fst c = ''keytool''
              \<longrightarrow> flag_values ''-storepass'' (snd c) = [''changeit'']
                  \<and> set (flag_values ''-srcstorepass'' (snd c)) \<subseteq> {''changeit''})"
  using assms unfolding invocations_exec_plan
  apply (simp only: list.set insert_iff empty_iff)
  apply (elim disjE)
  by (simp_all add: passwords_of_commands passwords_of_commands(2) [of _ "''ca''", simplified]
        passwords_of_commands(2) [of _ "''node''", simplified]
        passwords_of_commands(2) [of _ "''kibana''", simplified]
        passwords_of_commands(2) [of _ "''cerebro''", simplified]
        passwords_of_commands(2) [of _ "''sgadmin''", simplified]
        protected_flags subcommands)

lemma protected_planned:
  "filter protected_op (invocations (exec_plan configDir certsDir)) =
     [(''openssl'', Args (cmdConvertSgadmin certsDir)),
      (''openssl'', Args (cmdConvertNode certsDir)),
      (''keytool'', Args (cmdCAJKS certsDir)),
      (''keytool'', Args (cmdSgadminJKS certsDir)),
      (''keytool'', Args (cmdNodeJKS certsDir))]"
  by (simp add: invocations_exec_plan protected_op_def subcommands)

text \<open>
  Claim C9. In every run of \<open>GenerateCerts\<close>, the only passwords on the command line of
  any program are \<open>pass:changeit\<close> (openssl's notation for the literal \<open>changeit\<close>) and
  \<open>changeit\<close>: every \<open>openssl pkcs12\<close> export is given \<open>-password pass:changeit\<close>, every
  \<open>keytool\<close> operation \<open>-storepass changeit\<close> and, where it reads a keystore,
  \<open>-srcstorepass changeit\<close>. A run that returns nil has made exactly five such operations.
\<close>

theorem fixed_password:
  "(\<forall>c \<in> set (invocations (events_since w
                (snd (GenerateCerts E configDir certsDir namespace clusterName w)))).
      set (passwords (snd c)) \<subseteq> {''pass:changeit'', ''changeit''}
      \<and> (is_tool ''openssl'' ''pkcs12'' c
           \<longrightarrow> flag_values ''-password'' (snd c) = [''pass:changeit''])
      \<and> (fst c = ''keytool''
           \<longrightarrow> flag_values ''-storepass'' (snd c) = [''changeit'']
               \<and> set (flag_values ''-srcstorepass'' (snd c)) \<subseteq> {''changeit''}))
   \<and> (fst (GenerateCerts E configDir certsDir namespace clusterName w) = Return None
        \<longrightarrow> filter protected_op (invocations (events_since w
                (snd (GenerateCerts E configDir certsDir namespace clusterName w))))
            = [(''openssl'', Args (cmdConvertSgadmin certsDir)),
               (''openssl'', Args (cmdConvertNode certsDir)),
               (''keytool'', Args (cmdCAJKS certsDir)),
               (''keytool'', Args (cmdSgadminJKS certsDir)),
               (''keytool'', Args (cmdNodeJKS certsDir))])"
proof (intro conjI ballI impI)
  fix c
  assume "c \<in> set (invocations (events_since w
                (snd (GenerateCerts E configDir certsDir namespace clusterName w))))"
  then have c: "c \<in> set (invocations (exec_plan configDir certsDir))"
    using GenerateCerts_invocations(1) [of w E configDir certsDir namespace clusterName]
    by (meson set_mono_prefix subsetD)
  show "set (passwords (snd c)) \<subseteq> {''pass:changeit'', ''changeit''}"
    using planned_passwords [OF c] by blast
  show "flag_values ''-password'' (snd c) = [''pass:changeit'']"
    if "is_tool ''openssl'' ''pkcs12'' c"
    using planned_passwords [OF c] that by blast
  show "flag_values ''-storepass'' (snd c) = [''changeit'']"
    if "fst c = ''keytool''"
    using planned_passwords [OF c] that by blast
  show "set (flag_values ''-srcstorepass'' (snd c)) \<subseteq> {''changeit''}"
    if "fst c = ''keytool''"
    using planned_passwords [OF c] that by blast
next
  assume "fst (GenerateCerts E configDir certsDir namespace clusterName w) = Return None"
  then show "filter protected_op (invocations (events_since w
                (snd (GenerateCerts E configDir certsDir namespace clusterName w))))
            = [(''openssl'', Args (cmdConvertSgadmin certsDir)),
               (''openssl'', Args (cmdConvertNode certsDir)),
               (''keytool'', Args (cmdCAJKS certsDir)),
               (''keytool'', Args (cmdSgadminJKS certsDir)),
               (''keytool'', Args (cmdNodeJKS certsDir))]"
    by (simp add: GenerateCerts_invocations(2) protected_planned)
qed

theorem fixed_password_witness:
  "fst (GenerateCerts sample_env ''/config'' ''/certs'' ''logging'' ''prod'' sample_world)
     = Return None
   \<and> filter protected_op (invocations (events_since sample_world
         (snd (GenerateCerts sample_env ''/config'' ''/certs'' ''logging'' ''prod''
                 sample_world))))
       = [(''openssl'', Args (cmdConvertSgadmin ''/certs'')),
          (''openssl'', Args (cmdConvertNode ''/certs'')),
          (''keytool'', Args (cmdCAJKS ''/certs'')),
          (''keytool'', Args (cmdSgadminJKS ''/certs'')),
          (''keytool'', Args (cmdNodeJKS ''/certs''))]
   \<and> (''keytool'', Args (cmdNodeJKS ''/certs''))
       \<in> set (invocations (events_since sample_world
         (snd (GenerateCerts sample_env ''/config'' ''/certs'' ''logging'' ''prod''
                 sample_world))))
   \<and> flag_values ''-storepass'' (Args (cmdNodeJKS ''/certs'')) = [''changeit'']
   \<and> set (passwords (Args (cmdNodeJKS ''/certs''))) \<subseteq> {''pass:changeit'', ''changeit''}"
proof -
  let ?inv = "invocations (events_since sample_world
         (snd (GenerateCerts sample_env ''/config'' ''/certs'' ''logging'' ''prod''
                 sample_world)))"
  note inst = fixed_password [of sample_world sample_env "''/config''" "''/certs''"
               "''logging''" "''prod''"]
  have ok: "fst (GenerateCerts sample_env ''/config'' ''/certs'' ''logging'' ''prod''
                   sample_world) = Return None"
    by (rule sample_run_ok)
  have f: "filter protected_op ?inv
       = [(''openssl'', Args (cmdConvertSgadmin ''/certs'')),
          (''openssl'', Args (cmdConvertNode ''/certs'')),
          (''keytool'', Args (cmdCAJKS ''/certs'')),
          (''keytool'', Args (cmdSgadminJKS ''/certs'')),
          (''keytool'', Args (cmdNodeJKS ''/certs''))]"
    using inst ok by blast
  have "(''keytool'', Args (cmdNodeJKS ''/certs'')) \<in> set (filter protected_op ?inv)"
    by (simp only: f) simp
  then have m: "(''keytool'', Args (cmdNodeJKS ''/certs'')) \<in> set ?inv"
    by simp
  have "set (passwords (snd (''keytool'', Args (cmdNodeJKS ''/certs''))))
          \<subseteq> {''pass:changeit'', ''changeit''}
        \<and> flag_values ''-storepass'' (snd (''keytool'', Args (cmdNodeJKS ''/certs'')))
          = [''changeit'']"
    using inst m by fastforce
  then show ?thesis using ok f m by simp
qed

lemma out_of_pkcs12:
  "flag_values ''-out'' (Args (cmdConvertSgadmin certsDir)) = [certsDir @ ''/sgadmin.pkcs12'']"
  "flag_values ''-out'' (Args (cmdConvertNode certsDir)) = [certsDir @ ''/node.pkcs12'']"
  by (simp_all add: cmdConvertSgadmin_def cmdConvertNode_def exec_Command_def)

text \<open>
  Claim C5, as amended. In a run of \<open>GenerateCerts\<close> that returns nil, certificate and key
  files are written (by \<open>cfssljson -bare\<close>) for the CA, node, kibana, cerebro and sgadmin;
  the only PKCS8 conversion is that of the node key; the only PKCS12 exports are those of
  sgadmin and node; the only keystore operations are the import of the CA certificate into
  the trust store and the import of the sgadmin and node PKCS12 archives. Nothing but the
  PEM pair is made for kibana and cerebro.
\<close>

theorem conversions_by_identity:
  assumes "fst (GenerateCerts E configDir certsDir namespace clusterName w) = Return None"
  shows
    "filter (is_tool ''cfssljson'' ''-bare'')
       (invocations (events_since w
          (snd (GenerateCerts E configDir certsDir namespace clusterName w))))
       = map (\<lambda>n. (''cfssljson'', [''-bare'', certsDir @ ''/'' @ n])) (''ca'' # leaves)
     \<and> filter (is_tool ''openssl'' ''pkcs8'')
       (invocations (events_since w
          (snd (GenerateCerts E configDir certsDir namespace clusterName w))))
       = [(''openssl'', [''pkcs8'', ''-topk8'', ''-in'', certsDir @ ''/node-key.pem'',
                         ''-out'', certsDir @ ''/node-key.pkcs8.pem'', ''-nocrypt''])]
     \<and> filter (is_tool ''openssl'' ''pkcs12'')
       (invocations (events_since w
          (snd (GenerateCerts E configDir certsDir namespace clusterName w))))
       = [(''openssl'', Args (cmdConvertSgadmin certsDir)),
          (''openssl'', Args (cmdConvertNode certsDir))]
     \<and> flag_values ''-out'' (Args (cmdConvertSgadmin certsDir)) = [certsDir @ ''/sgadmin.pkcs12'']
     \<and> flag_values ''-out'' (Args (cmdConvertNode certsDir)) = [certsDir @ ''/node.pkcs12'']
     \<and> filter (\<lambda>c. fst c = ''keytool'')
       (invocations (events_since w
          (snd (GenerateCerts E configDir certsDir namespace clusterName w))))
       = [(''keytool'', Args (cmdCAJKS certsDir)),
          (''keytool'', Args (cmdSgadminJKS certsDir)),
          (''keytool'', Args (cmdNodeJKS certsDir))]"
proof -
  have inv: "invocations (events_since w
          (snd (GenerateCerts E configDir certsDir namespace clusterName w)))
        = invocations (exec_plan configDir certsDir)"
    using assms by (rule GenerateCerts_invocations(2))
  have p8: "Args (cmdConvertNodePkcs8 certsDir)
      = [''pkcs8'', ''-topk8'', ''-in'', certsDir @ ''/node-key.pem'',
                         ''-out'', certsDir @ ''/node-key.pkcs8.pem'', ''-nocrypt'']"
    by (simp add: cmdConvertNodePkcs8_def exec_Command_def)
  show ?thesis
    unfolding inv invocations_exec_plan
    by (simp add: subcommands leaves_def out_of_pkcs12 p8 [symmetric])
qed

text \<open>
  Claim C5 as stated fails: in the sample run, which returns nil, the one PKCS8
  conversion is that of the node key, and none is made for kibana or cerebro.
\<close>

theorem conversions_by_identity_counterexample:
  "fst (GenerateCerts sample_env ''/config'' ''/certs'' ''logging'' ''prod'' sample_world)
     = Return None
   \<and> filter (is_tool ''openssl'' ''pkcs8'')
       (invocations (events_since sample_world
          (snd (GenerateCerts sample_env ''/config'' ''/certs'' ''logging'' ''prod''
                  sample_world))))
       = [(''openssl'', [''pkcs8'', ''-topk8'', ''-in'', ''/certs/node-key.pem'',
                         ''-out'', ''/certs/node-key.pkcs8.pem'', ''-nocrypt''])]
   \<and> \<not> pkcs8_made_for ''/certs'' ''kibana''
       (invocations (events_since sample_world
          (snd (GenerateCerts sample_env ''/config'' ''/certs'' ''logging'' ''prod''
                  sample_world))))
   \<and> \<not> pkcs8_made_for ''/certs'' ''cerebro''
       (invocations (events_since sample_world
          (snd (GenerateCerts sample_env ''/config'' ''/certs'' ''logging'' ''prod''
                  sample_world))))"
proof -
  have ok: "fst (GenerateCerts sample_env ''/config'' ''/certs'' ''logging'' ''prod''
                   sample_world) = Return None"
    by (rule sample_run_ok)
  have inv: "invocations (events_since sample_world
          (snd (GenerateCerts sample_env ''/config'' ''/certs'' ''logging'' ''prod''
                  sample_world)))
        = invocations (exec_plan ''/config'' ''/certs'')"
    using ok by (rule GenerateCerts_invocations(2))
  have p8: "Args (cmdConvertNodePkcs8 ''/certs'')
      = [''pkcs8'', ''-topk8'', ''-in'', ''/certs/node-key.pem'',
                         ''-out'', ''/certs/node-key.pkcs8.pem'', ''-nocrypt'']"
    by (simp add: cmdConvertNodePkcs8_def exec_Command_def)
  show ?thesis
    unfolding inv invocations_exec_plan pkcs8_made_for_def
    by (simp add: ok subcommands p8)
qed

theorem conversions_by_identity_witness:
  "fst (GenerateCerts sample_env ''/config'' ''/certs'' ''logging'' ''prod'' sample_world)
     = Return None
   \<and> filter (is_tool ''cfssljson'' ''-bare'')
       (invocations (events_since sample_world
          (snd (GenerateCerts sample_env ''/config'' ''/certs'' ''logging'' ''prod''
                  sample_world))))
       = [(''cfssljson'', [''-bare'', ''/certs/ca'']),
          (''cfssljson'', [''-bare'', ''/certs/node'']),
          (''cfssljson'', [''-bare'', ''/certs/kibana'']),
          (''cfssljson'', [''-bare'', ''/certs/cerebro'']),
          (''cfssljson'', [''-bare'', ''/certs/sgadmin''])]
   \<and> filter (is_tool ''openssl'' ''pkcs12'')
       (invocations (events_since sample_world
          (snd (GenerateCerts sample_env ''/config'' ''/certs'' ''logging'' ''prod''
                  sample_world))))
       = [(''openssl'', Args (cmdConvertSgadmin ''/certs'')),
          (''openssl'', Args (cmdConvertNode ''/certs''))]"
proof -
  have ok: "fst (GenerateCerts sample_env ''/config'' ''/certs'' ''logging'' ''prod''
                   sample_world) = Return None"
    by (rule sample_run_ok)
  show ?thesis
    using conversions_by_identity [OF ok] ok by (simp add: leaves_def)
qed

section \<open>The bundle, the pipeline, and dropped errors\<close>

lemma unreadable_is_nil:
  "snd (ioutil_ReadFile E p w) \<noteq> None \<Longrightarrow> fst (ioutil_ReadFile E p w) = []"
  by (auto simp: ioutil_ReadFile_def split: option.splits node.splits)

text \<open>
  Claim C2. \<open>CreateCertsSecret\<close> returns the read error, and leaves the world as it
  was (no secret is created), when \<open>node-keystore.jks\<close> cannot be read, and likewise when
  \<open>sgadmin-keystore.jks\<close> cannot. When both can, it hands to the API a secret named
  \<open>secretName-clusterName\<close> whose data has exactly the fourteen fixed keys, each holding
  what reading \<open>certsDir/key\<close> gave, which for a file that cannot be read is the empty
  content; no other read can make it fail, and it returns nil with the secret stored
  whenever the API accepts the secret.
\<close>

theorem bundle_assembly:
  "(\<forall>e. snd (ioutil_ReadFile E (certsDir @ ''/node-keystore.jks'') w) = Some e
        \<longrightarrow> CreateCertsSecret E namespace clusterName certsDir w = (Some e, w))
   \<and> (\<forall>e. snd (ioutil_ReadFile E (certsDir @ ''/node-keystore.jks'') w) = None
          \<and> snd (ioutil_ReadFile E (certsDir @ ''/sgadmin-keystore.jks'') w) = Some e
        \<longrightarrow> CreateCertsSecret E namespace clusterName certsDir w = (Some e, w))
   \<and> (snd (ioutil_ReadFile E (certsDir @ ''/node-keystore.jks'') w) = None
        \<and> snd (ioutil_ReadFile E (certsDir @ ''/sgadmin-keystore.jks'') w) = None
        \<longrightarrow> (\<exists>s. CreateCertsSecret E namespace clusterName certsDir w
                    = kube_Create E namespace s w
                 \<and> Name s = secretName E @ ''-'' @ clusterName
                 \<and> dom (Data s) = set bundleKeys
                 \<and> (\<forall>k \<in> set bundleKeys.
                       Data s k = Some (fst (ioutil_ReadFile E (certsDir @ ''/'' @ k) w)))
                 \<and> (\<forall>k \<in> set bundleKeys.
                       snd (ioutil_ReadFile E (certsDir @ ''/'' @ k) w) \<noteq> None
                       \<longrightarrow> Data s k = Some [])
                 \<and> (api_fault E namespace (Name s) = None
                      \<and> map_of (secrets w) (namespace, Name s) = None
                      \<longrightarrow> CreateCertsSecret E namespace clusterName certsDir w
                          = (None, w\<lparr>secrets := secrets w @ [((namespace, Name s), s)]\<rparr>))))"
proof (intro conjI allI impI)
  fix e
  assume "snd (ioutil_ReadFile E (certsDir @ ''/node-keystore.jks'') w) = Some e"
  then show "CreateCertsSecret E namespace clusterName certsDir w = (Some e, w)"
    by (cases "ioutil_ReadFile E (certsDir @ ''/node-keystore.jks'') w")
       (simp add: CreateCertsSecret_def)
next
  fix e
  assume "snd (ioutil_ReadFile E (certsDir @ ''/node-keystore.jks'') w) = None
          \<and> snd (ioutil_ReadFile E (certsDir @ ''/sgadmin-keystore.jks'') w) = Some e"
  then show "CreateCertsSecret E namespace clusterName certsDir w = (Some e, w)"
    by (cases "ioutil_ReadFile E (certsDir @ ''/node-keystore.jks'') w";
        cases "ioutil_ReadFile E (certsDir @ ''/sgadmin-keystore.jks'') w")
       (simp add: CreateCertsSecret_def)
next
  assume a: "snd (ioutil_ReadFile E (certsDir @ ''/node-keystore.jks'') w) = None
          \<and> snd (ioutil_ReadFile E (certsDir @ ''/sgadmin-keystore.jks'') w) = None"
  define content where "content k = fst (ioutil_ReadFile E (certsDir @ ''/'' @ k) w)" for k
  define s where
    "s = \<lparr>Name = secretName E @ ''-'' @ clusterName,
          Data = map_of (map (\<lambda>k. (k, content k)) bundleKeys)\<rparr>"
  have c: "CreateCertsSecret E namespace clusterName certsDir w = kube_Create E namespace s w"
    using a
    by (cases "ioutil_ReadFile E (certsDir @ ''/node-keystore.jks'') w";
        cases "ioutil_ReadFile E (certsDir @ ''/sgadmin-keystore.jks'') w")
       (simp add: CreateCertsSecret_def Let_def read_ignoring_error_def s_def content_def
          bundleKeys_def)
  have d: "dom (Data s) = set bundleKeys"
    by (simp add: s_def dom_map_of_conv_image_fst image_image)
  have v: "Data s k = Some (content k)" if "k \<in> set bundleKeys" for k
    using that by (simp add: s_def map_of_map_restrict)
  have n: "Data s k = Some []"
    if "k \<in> set bundleKeys" "snd (ioutil_ReadFile E (certsDir @ ''/'' @ k) w) \<noteq> None" for k
    using v [OF that(1)] unreadable_is_nil [OF that(2)] by (simp add: content_def)
  have k: "CreateCertsSecret E namespace clusterName certsDir w
             = (None, w\<lparr>secrets := secrets w @ [((namespace, Name s), s)]\<rparr>)"
    if "api_fault E namespace (Name s) = None \<and> map_of (secrets w) (namespace, Name s) = None"
    using that by (simp add: c kube_Create_def)
  show "\<exists>s. CreateCertsSecret E namespace clusterName certsDir w = kube_Create E namespace s w
          \<and> Name s = secretName E @ ''-'' @ clusterName
          \<and> dom (Data s) = set bundleKeys
          \<and> (\<forall>k \<in> set bundleKeys.
                Data s k = Some (fst (ioutil_ReadFile E (certsDir @ ''/'' @ k) w)))
          \<and> (\<forall>k \<in> set bundleKeys.
                snd (ioutil_ReadFile E (certsDir @ ''/'' @ k) w) \<noteq> None \<longrightarrow> Data s k = Some [])
          \<and> (api_fault E namespace (Name s) = None
               \<and> map_of (secrets w) (namespace, Name s) = None
               \<longrightarrow> CreateCertsSecret E namespace clusterName certsDir w
                   = (None, w\<lparr>secrets := secrets w @ [((namespace, Name s), s)]\<rparr>))"
    apply (rule exI [of _ s])
    using c d v n k by (simp add: s_def content_def)
qed

theorem bundle_assembly_witness:
  "CreateCertsSecret sample_env ''logging'' ''prod'' ''/certs'' sample_world
     = (Some (ENOENT ''/certs/node-keystore.jks''), sample_world)
   \<and> snd (ioutil_ReadFile sample_env ''/certs/kibana.pem'' bundle_world)
       = Some (ENOENT ''/certs/kibana.pem'')
   \<and> fst (CreateCertsSecret sample_env ''logging'' ''prod'' ''/certs'' bundle_world) = None
   \<and> map (\<lambda>(k, s). (k, Name s, dom (Data s) = set bundleKeys, Data s ''kibana.pem'',
                      Data s ''node-keystore.jks''))
        (secrets (snd (CreateCertsSecret sample_env ''logging'' ''prod'' ''/certs''
                         bundle_world)))
       = [((''logging'', ''es-certs-prod''), ''es-certs-prod'', True, Some [], Some ''NKS'')]"
proof -
  note inst1 = bundle_assembly [of sample_env "''/certs''" sample_world "''logging''" "''prod''"]
  note inst2 = bundle_assembly [of sample_env "''/certs''" bundle_world "''logging''" "''prod''"]
  have r1: "snd (ioutil_ReadFile sample_env (''/certs'' @ ''/node-keystore.jks'') sample_world)
              = Some (ENOENT ''/certs/node-keystore.jks'')"
    by code_simp
  have first: "CreateCertsSecret sample_env ''logging'' ''prod'' ''/certs'' sample_world
     = (Some (ENOENT ''/certs/node-keystore.jks''), sample_world)"
    using inst1 r1 by blast
  have r2: "snd (ioutil_ReadFile sample_env (''/certs'' @ ''/node-keystore.jks'') bundle_world)
              = None
            \<and> snd (ioutil_ReadFile sample_env (''/certs'' @ ''/sgadmin-keystore.jks'')
                      bundle_world) = None"
    by code_simp
  have r3: "snd (ioutil_ReadFile sample_env (''/certs'' @ ''/'' @ ''kibana.pem'') bundle_world)
              = Some (ENOENT ''/certs/kibana.pem'')"
    by code_simp
  have r4: "fst (ioutil_ReadFile sample_env (''/certs'' @ ''/'' @ ''node-keystore.jks'')
                   bundle_world) = ''NKS''"
    by code_simp
  from inst2 r2 obtain s where
    s: "Name s = secretName sample_env @ ''-'' @ ''prod''"
       "dom (Data s) = set bundleKeys"
       "\<forall>k \<in> set bundleKeys.
           Data s k = Some (fst (ioutil_ReadFile sample_env (''/certs'' @ ''/'' @ k) bundle_world))"
       "\<forall>k \<in> set bundleKeys.
           snd (ioutil_ReadFile sample_env (''/certs'' @ ''/'' @ k) bundle_world) \<noteq> None
           \<longrightarrow> Data s k = Some []"
       "api_fault sample_env ''logging'' (Name s) = None
          \<and> map_of (secrets bundle_world) (''logging'', Name s) = None
          \<longrightarrow> CreateCertsSecret sample_env ''logging'' ''prod'' ''/certs'' bundle_world
              = (None, bundle_world\<lparr>secrets := secrets bundle_world
                                           @ [((''logging'', Name s), s)]\<rparr>)"
    by blast
  have nm: "Name s = ''es-certs-prod''" using s(1) by (simp add: sample_env_def)
  have "api_fault sample_env ''logging'' (Name s) = None
          \<and> map_of (secrets bundle_world) (''logging'', Name s) = None"
    by (simp add: sample_env_def bundle_world_def)
  with s(5) have second:
    "CreateCertsSecret sample_env ''logging'' ''prod'' ''/certs'' bundle_world
       = (None, bundle_world\<lparr>secrets := secrets bundle_world @ [((''logging'', Name s), s)]\<rparr>)"
    by blast
  have k1: "Data s ''kibana.pem'' = Some []"
    using s(4) r3 by (simp add: bundleKeys_def)
  have k2: "Data s ''node-keystore.jks'' = Some ''NKS''"
    using s(3) r4 by (simp add: bundleKeys_def)
  show ?thesis
    using first r3 second nm s(2) k1 k2 by (simp add: bundle_world_def)
qed

text \<open>
  Claim C10. On an empty list of commands \<open>pipeCommands\<close> panics and returns nothing; on
  every non-empty list it returns. On a list of one command it returns what \<open>Output\<close> of
  that command gives: its error with no bytes, or its captured output, which for a fresh
  command whose program exits with status 0 is what the program wrote.
\<close>

theorem pipeCommands_empty_and_single:
  "pipeCommands E [] w = (Panic ''slice bounds out of range'', w)
   \<and> (commands \<noteq> [] \<longrightarrow> (\<exists>r. fst (pipeCommands E commands w) = Return r))
   \<and> pipeCommands E [c] w
       = (case cmd_Output E c w of
            ((final, Some e), w') \<Rightarrow> (Return ([], Some e), w')
          | ((final, None), w') \<Rightarrow> (Return (final, None), w'))
   \<and> (fresh c \<and> spawn E (Path c) (Args c) (Stdin c) (fs w) = Exited 0 out files
        \<longrightarrow> pipeCommands E [c] w
            = (Return (out, None), emit (EvExec (Path c) (Args c)) (w\<lparr>fs := files\<rparr>)))"
proof (intro conjI impI)
  show "pipeCommands E [] w = (Panic ''slice bounds out of range'', w)"
    by (simp add: pipeCommands_def)
  show "\<exists>r. fst (pipeCommands E commands w) = Return r" if "commands \<noteq> []"
    using that
    by (auto simp: pipeCommands_def split: list.splits prod.splits sum.splits option.splits)
  show single: "pipeCommands E [c] w
       = (case cmd_Output E c w of
            ((final, Some e), w') \<Rightarrow> (Return ([], Some e), w')
          | ((final, None), w') \<Rightarrow> (Return (final, None), w'))"
    by (simp add: pipeCommands_def)
  show "pipeCommands E [c] w
            = (Return (out, None), emit (EvExec (Path c) (Args c)) (w\<lparr>fs := files\<rparr>))"
    if "fresh c \<and> spawn E (Path c) (Args c) (Stdin c) (fs w) = Exited 0 out files"
    using that by (simp add: single cmd_Output_def fresh_def)
qed

theorem pipeCommands_empty_and_single_witness:
  "[exec_Command ''echo'' [''hello'']] \<noteq> []
   \<and> fresh (exec_Command ''echo'' [''hello''])
   \<and> spawn echo_env ''echo'' [''hello''] DevNull (fs sample_world)
       = Exited 0 ''hello'' (fs sample_world)
   \<and> fst (pipeCommands echo_env [exec_Command ''echo'' [''hello'']] sample_world)
       = Return (''hello'', None)
   \<and> fst (pipeCommands echo_env [] sample_world) = Panic ''slice bounds out of range''"
proof -
  have f: "fresh (exec_Command ''echo'' [''hello''])" by simp
  have sp: "spawn echo_env (Path (exec_Command ''echo'' [''hello'']))
              (Args (exec_Command ''echo'' [''hello'']))
              (Stdin (exec_Command ''echo'' [''hello''])) (fs sample_world)
            = Exited 0 ''hello'' (fs sample_world)"
    by (simp add: echo_env_def exec_Command_def)
  note inst = pipeCommands_empty_and_single
            [of echo_env sample_world "[exec_Command ''echo'' [''hello'']]"
                "exec_Command ''echo'' [''hello'']" "''hello''" "fs sample_world"]
  have one: "pipeCommands echo_env [exec_Command ''echo'' [''hello'']] sample_world
          = (Return (''hello'', None),
             emit (EvExec (Path (exec_Command ''echo'' [''hello'']))
                     (Args (exec_Command ''echo'' [''hello''])))
               (sample_world\<lparr>fs := fs sample_world\<rparr>))"
    using inst f sp by blast
  have none: "pipeCommands echo_env [] sample_world
          = (Panic ''slice bounds out of range'', sample_world)"
    using inst by blast
  have sp': "spawn echo_env ''echo'' [''hello''] DevNull (fs sample_world)
       = Exited 0 ''hello'' (fs sample_world)"
    using sp by (simp add: exec_Command_def)
  show ?thesis
    by (simp only: one none f sp' fst_conv) simp
qed

text \<open>
  Claim C4 fails on the code. With only \<open>echo\<close> installed, the first command of the
  pipeline \<open>no-such-program | echo hi\<close> fails to start, and \<open>pipeCommands\<close> still returns
  the output of \<open>echo\<close> and no error: the result of \<open>command.Start()\<close> is dropped.
\<close>

theorem upstream_start_failure_is_dropped:
  "fst (cmd_Start echo_env (exec_Command ''no-such-program'' []) sample_world)
     = (Some (ErrStart ''no-such-program''), ClosedPipe)
   \<and> fst (pipeCommands echo_env
            [exec_Command ''no-such-program'' [], exec_Command ''echo'' [''hi'']] sample_world)
     = Return (''hi'', None)"
  by (simp add: pipeCommands_def cmd_StdoutPipe_def cmd_Start_def cmd_Output_def exec_Command_def
        echo_env_def sample_env_def)

text \<open>
  Claim C3 fails on the code. When the operating system refuses to remove a stale
  artifact, \<open>cleanUp\<close> returns the error but \<open>GenerateCerts\<close>, which does not look at it,
  runs on and returns nil. When it refuses to create the first descriptor file,
  \<open>generateConfig\<close> stops, but what it returns is \<open>os.ErrInvalid\<close> from the write to the nil
  file, not the error of \<open>os.Create\<close>.
\<close>

theorem cleanup_failure_is_dropped:
  "fst (cleanUp stuck_env ''/certs'' sample_world) = Some (EPERM ''/certs/stale.pem'')
   \<and> fst (GenerateCerts stuck_env ''/config'' ''/certs'' ''logging'' ''prod'' sample_world)
       = Return None
   \<and> snd (fst (os_Create readonly_env ''/config/ca-config.json'' sample_world))
       = Some (EPERM ''/config/ca-config.json'')
   \<and> fst (generateConfig readonly_env ''/config'' ''/certs'' ''logging'' ''prod'' sample_world)
       = Some ErrInvalid"
proof -
  have stuck: "fst (cleanUp stuck_env ''/certs'' sample_world) = Some (EPERM ''/certs/stale.pem'')"
    by code_simp
  have run: "fst (GenerateCerts stuck_env ''/config'' ''/certs'' ''logging'' ''prod''
                    sample_world) = Return None"
  proof (rule GenerateCerts_succeeds)
    show "\<exists>out f'. spawn stuck_env p a i f = Exited 0 out f'" for p a i f
      by (simp add: stuck_env_def sample_env_def sample_spawn_def)
    show "pipe_fault stuck_env = None" by (simp add: stuck_env_def sample_env_def)
    show "fst (generateConfig stuck_env ''/config'' ''/certs'' ''logging'' ''prod''
            (snd (cleanUp stuck_env ''/config''
                    (snd (cleanUp stuck_env ''/certs'' sample_world))))) = None"
      by code_simp
  qed
  have create: "snd (fst (os_Create readonly_env ''/config/ca-config.json'' sample_world))
       = Some (EPERM ''/config/ca-config.json'')"
    by code_simp
  have config: "fst (generateConfig readonly_env ''/config'' ''/certs'' ''logging'' ''prod''
                       sample_world) = Some ErrInvalid"
    by code_simp
  show ?thesis using stuck run create config by simp
qed

end
